theory Spec2Isabelle
  imports Main "HOL-Library.Word"
begin

unbundle bit_operations_syntax

section \<open>Image sample-count tests: data model\<close>

text \<open>
  The development embeds the sample-count rule evaluator and the case enumerator of
  \<^verbatim>\<open>vktImageSampleCountsTests.cpp\<close>. Vulkan flag sets are 32-bit masks, format
  identifiers are the values of the \<^verbatim>\<open>VkFormat\<close> enumeration.
\<close>

type_synonym VkFlags = "32 word"
type_synonym VkSampleCountFlags = VkFlags
type_synonym VkImageUsageFlags = VkFlags
type_synonym VkImageCreateFlags = VkFlags
type_synonym VkFormatFeatureFlags = VkFlags
type_synonym VkFormat = int
type_synonym VkResult = int

datatype VkImageType = VK_IMAGE_TYPE_1D | VK_IMAGE_TYPE_2D | VK_IMAGE_TYPE_3D

datatype VkImageTiling = VK_IMAGE_TILING_OPTIMAL | VK_IMAGE_TILING_LINEAR

datatype ImageType = IMAGE_TYPE_1D | IMAGE_TYPE_2D | IMAGE_TYPE_3D

text \<open>
  Modelled from the spec: the Vulkan headers that declare the enumerators below are not
  among the sources. The spec describes usage flags, format features and sample counts as
  bitmasks with one bit for each member, the single-sample set being the bit of sample
  count 1, and the query results as Success, FormatNotSupported and other errors. The
  bit positions and result codes are those of the Vulkan API; the proofs use of them only
  that the bits are distinct single bits and that the two result codes differ.
\<close>

definition VK_SUCCESS :: VkResult where
  "VK_SUCCESS = 0"

definition VK_ERROR_FORMAT_NOT_SUPPORTED :: VkResult where
  "VK_ERROR_FORMAT_NOT_SUPPORTED = - 11"

definition VK_SAMPLE_COUNT_1_BIT :: VkSampleCountFlags where
  "VK_SAMPLE_COUNT_1_BIT = 0x1"

definition VK_IMAGE_USAGE_SAMPLED_BIT :: VkImageUsageFlags where
  "VK_IMAGE_USAGE_SAMPLED_BIT = 0x4"

definition VK_IMAGE_USAGE_STORAGE_BIT :: VkImageUsageFlags where
  "VK_IMAGE_USAGE_STORAGE_BIT = 0x8"

definition VK_IMAGE_USAGE_COLOR_ATTACHMENT_BIT :: VkImageUsageFlags where
  "VK_IMAGE_USAGE_COLOR_ATTACHMENT_BIT = 0x10"

definition VK_IMAGE_USAGE_DEPTH_STENCIL_ATTACHMENT_BIT :: VkImageUsageFlags where
  "VK_IMAGE_USAGE_DEPTH_STENCIL_ATTACHMENT_BIT = 0x20"

definition VK_FORMAT_FEATURE_COLOR_ATTACHMENT_BIT :: VkFormatFeatureFlags where
  "VK_FORMAT_FEATURE_COLOR_ATTACHMENT_BIT = 0x80"

definition VK_FORMAT_FEATURE_DEPTH_STENCIL_ATTACHMENT_BIT :: VkFormatFeatureFlags where
  "VK_FORMAT_FEATURE_DEPTH_STENCIL_ATTACHMENT_BIT = 0x200"

definition VK_IMAGE_CREATE_CUBE_COMPATIBLE_BIT :: VkImageCreateFlags where
  "VK_IMAGE_CREATE_CUBE_COMPATIBLE_BIT = 0x10"

text \<open>
  \<^verbatim>\<open>tcu::TextureFormat\<close> is declared in the texture library, outside the sources at
  hand; the channel order is what the code reads of it. The code names the orders
  \<open>D\<close>, \<open>S\<close> and \<open>DS\<close>; every other order of the enumeration is a colour order.
\<close>

datatype ChannelOrder =
    R | A | I | L | LA | RG | RA | RGB | RGBA | ARGB | ABGR | BGR | BGRA
  | sR | sRG | sRGB | sRGBA | sBGR | sBGRA
  | D | S | DS

record TextureFormat =
  order :: ChannelOrder

text \<open>
  The format queries of \<^verbatim>\<open>vkImageUtil\<close> are declared outside the sources at hand:
  they are parameters of the model, one field for each function the code calls, each a
  total function of the format.
\<close>

record FormatUtil =
  isCompressedFormat :: "VkFormat \<Rightarrow> bool"
  isFloatFormat :: "VkFormat \<Rightarrow> bool"
  isSnormFormat :: "VkFormat \<Rightarrow> bool"
  isUnormFormat :: "VkFormat \<Rightarrow> bool"
  isIntFormat :: "VkFormat \<Rightarrow> bool"
  isUintFormat :: "VkFormat \<Rightarrow> bool"
  isYCbCrFormat :: "VkFormat \<Rightarrow> bool"
  mapVkFormat :: "VkFormat \<Rightarrow> TextureFormat"
  getFormatShortString :: "VkFormat \<Rightarrow> string"

record CaseDef =
  format :: VkFormat
  imageType :: VkImageType
  imageTiling :: VkImageTiling
  usageFlags :: VkImageUsageFlags

text \<open>The limit fields of \<^verbatim>\<open>VkPhysicalDeviceLimits\<close> that the rules read.\<close>

record VkPhysicalDeviceLimits =
  framebufferColorSampleCounts :: VkSampleCountFlags
  framebufferDepthSampleCounts :: VkSampleCountFlags
  framebufferStencilSampleCounts :: VkSampleCountFlags
  sampledImageColorSampleCounts :: VkSampleCountFlags
  sampledImageIntegerSampleCounts :: VkSampleCountFlags
  sampledImageDepthSampleCounts :: VkSampleCountFlags
  storageImageSampleCounts :: VkSampleCountFlags

record VkPhysicalDeviceVulkan12Properties =
  framebufferIntegerColorSampleCounts :: VkSampleCountFlags

record VkFormatProperties =
  optimalTilingFeatures :: VkFormatFeatureFlags

record VkImageFormatProperties =
  sampleCounts :: VkSampleCountFlags

text \<open>
  The device is a read-only oracle: the three instance-interface queries the tests issue,
  as functions of their arguments. The image-format query returns its result code with
  the properties structure it filled in.
\<close>

record Context =
  getPhysicalDeviceFormatProperties :: "VkFormat \<Rightarrow> VkFormatProperties"
  getPhysicalDeviceProperties2 :: "VkPhysicalDeviceLimits \<times> VkPhysicalDeviceVulkan12Properties"
  getPhysicalDeviceImageFormatProperties ::
    "VkFormat \<Rightarrow> VkImageType \<Rightarrow> VkImageTiling \<Rightarrow> VkImageUsageFlags \<Rightarrow> VkImageCreateFlags
      \<Rightarrow> VkResult \<times> VkImageFormatProperties"

datatype SampleCountsSubtests =
    LINEAR_TILING_AND_NOT_2D_IMAGE_TYPE
  | CUBE_COMPATIBLE_SUBTEST
  | OPTIMAL_TILING_FEATURES_SUBTEST
  | YCBCR_CONVERSION_SUBTEST
  | USAGE_FLAGS_SUBTEST
  | ONE_SAMPLE_COUNT_PRESENT_SUBTEST

section \<open>The rule evaluator\<close>

text \<open>Returns true if \<open>a\<close> is a superset of \<open>b\<close>.\<close>

definition isSuperset :: "VkSampleCountFlags \<Rightarrow> VkSampleCountFlags \<Rightarrow> bool" where
  "isSuperset a b = (a AND b = b)"

definition getColorSampleCounts ::
  "FormatUtil \<Rightarrow> CaseDef \<Rightarrow> VkPhysicalDeviceLimits \<Rightarrow> VkPhysicalDeviceVulkan12Properties
    \<Rightarrow> VkSampleCountFlags" where
  "getColorSampleCounts fu m_caseDef limits physicalDeviceProperties12 =
     (if \<not> isCompressedFormat fu (format m_caseDef) then
        (if isFloatFormat fu (format m_caseDef) \<or> isSnormFormat fu (format m_caseDef)
            \<or> isUnormFormat fu (format m_caseDef)
         then framebufferColorSampleCounts limits
         else if isIntFormat fu (format m_caseDef) \<or> isUintFormat fu (format m_caseDef)
         then framebufferIntegerColorSampleCounts physicalDeviceProperties12
         else 0)
      else 0)"

definition getDepthStencilSampleCounts ::
  "FormatUtil \<Rightarrow> CaseDef \<Rightarrow> VkPhysicalDeviceLimits \<Rightarrow> VkSampleCountFlags" where
  "getDepthStencilSampleCounts fu m_caseDef limits =
     (if \<not> isCompressedFormat fu (format m_caseDef) then
        (let fmt = mapVkFormat fu (format m_caseDef) in
         if order fmt = D then framebufferDepthSampleCounts limits
         else if order fmt = S then framebufferStencilSampleCounts limits
         else 0)
      else 0)"

text \<open>
  In the sampled-usage rule the first two branches return; the integer branch is reached
  only when neither of them fired.
\<close>

definition getSampledSampleCounts ::
  "FormatUtil \<Rightarrow> CaseDef \<Rightarrow> VkPhysicalDeviceLimits \<Rightarrow> VkSampleCountFlags" where
  "getSampledSampleCounts fu m_caseDef limits =
     (if \<not> isCompressedFormat fu (format m_caseDef) \<and> \<not> isYCbCrFormat fu (format m_caseDef) then
        (let fmt = mapVkFormat fu (format m_caseDef) in
         if order fmt \<noteq> D \<and> order fmt \<noteq> DS \<and> order fmt \<noteq> S
         then sampledImageColorSampleCounts limits
         else if order fmt = D \<or> order fmt = DS
         then sampledImageDepthSampleCounts limits
         else if isIntFormat fu (format m_caseDef) \<or> isUintFormat fu (format m_caseDef)
         then sampledImageIntegerSampleCounts limits
         else 0)
      else 0)"

definition getStorageSampleCounts :: "VkPhysicalDeviceLimits \<Rightarrow> VkSampleCountFlags" where
  "getStorageSampleCounts limits = storageImageSampleCounts limits"

section \<open>The six checks\<close>

datatype Exception = NotSupportedError string

text \<open>
  \<^verbatim>\<open>SampleCountTest::checkSupport\<close> probes the case's own configuration with no
  creation flag and throws when the device answers that the format is not supported.
\<close>

definition checkSupport :: "Context \<Rightarrow> CaseDef \<Rightarrow> Exception + unit" where
  "checkSupport ctx m_caseDef =
     (let (imageFormatResult, imageFormatProperties) =
            getPhysicalDeviceImageFormatProperties ctx (format m_caseDef) (imageType m_caseDef)
              (imageTiling m_caseDef) (usageFlags m_caseDef) 0
      in if imageFormatResult = VK_ERROR_FORMAT_NOT_SUPPORTED
         then Inl (NotSupportedError ''Format is not supported'')
         else Inr ())"

text \<open>
  The vector \<^verbatim>\<open>expectedSupersets\<close> of \<^verbatim>\<open>checkUsageFlags\<close>: one entry is pushed
  for each of the four usage bits that is set, in the order of the source.
\<close>

definition expectedSupersets ::
  "FormatUtil \<Rightarrow> CaseDef \<Rightarrow> VkPhysicalDeviceLimits \<Rightarrow> VkPhysicalDeviceVulkan12Properties
    \<Rightarrow> VkSampleCountFlags list" where
  "expectedSupersets fu m_caseDef limits physicalDeviceProperties12 =
     (if usageFlags m_caseDef AND VK_IMAGE_USAGE_COLOR_ATTACHMENT_BIT \<noteq> 0
      then [getColorSampleCounts fu m_caseDef limits physicalDeviceProperties12] else [])
     @ (if usageFlags m_caseDef AND VK_IMAGE_USAGE_DEPTH_STENCIL_ATTACHMENT_BIT \<noteq> 0
        then [getDepthStencilSampleCounts fu m_caseDef limits] else [])
     @ (if usageFlags m_caseDef AND VK_IMAGE_USAGE_SAMPLED_BIT \<noteq> 0
        then [getSampledSampleCounts fu m_caseDef limits] else [])
     @ (if usageFlags m_caseDef AND VK_IMAGE_USAGE_STORAGE_BIT \<noteq> 0
        then [getStorageSampleCounts limits] else [])"

text \<open>
  The mask the device's answer is compared with once the feature gate has been passed:
  the single-sample bit when the vector is empty, otherwise \<^verbatim>\<open>expectedFlags\<close>, which
  starts as the first entry and is intersected with every entry of the vector.
\<close>

definition expectedFlags ::
  "FormatUtil \<Rightarrow> CaseDef \<Rightarrow> VkPhysicalDeviceLimits \<Rightarrow> VkPhysicalDeviceVulkan12Properties
    \<Rightarrow> VkSampleCountFlags" where
  "expectedFlags fu m_caseDef limits physicalDeviceProperties12 =
     (case expectedSupersets fu m_caseDef limits physicalDeviceProperties12 of
        [] \<Rightarrow> VK_SAMPLE_COUNT_1_BIT
      | first # rest \<Rightarrow>
          fold (\<lambda>setFlags acc. acc AND setFlags) (first # rest) first)"

definition checkUsageFlags :: "FormatUtil \<Rightarrow> Context \<Rightarrow> CaseDef \<Rightarrow> bool" where
  "checkUsageFlags fu ctx m_caseDef =
     (let formatProperties = getPhysicalDeviceFormatProperties ctx (format m_caseDef);
          (limits, physicalDeviceProperties12) = getPhysicalDeviceProperties2 ctx;
          (imageFormatResult, imageFormatProperties) =
            getPhysicalDeviceImageFormatProperties ctx (format m_caseDef) (imageType m_caseDef)
              (imageTiling m_caseDef) (usageFlags m_caseDef) 0
      in if imageFormatResult \<noteq> VK_SUCCESS then False
         else if optimalTilingFeatures formatProperties
                   AND (VK_FORMAT_FEATURE_COLOR_ATTACHMENT_BIT
                        OR VK_FORMAT_FEATURE_DEPTH_STENCIL_ATTACHMENT_BIT) = 0
         then sampleCounts imageFormatProperties = VK_SAMPLE_COUNT_1_BIT
         else isSuperset (sampleCounts imageFormatProperties)
                (expectedFlags fu m_caseDef limits physicalDeviceProperties12))"

definition checkYCBCRConversion :: "Context \<Rightarrow> CaseDef \<Rightarrow> bool" where
  "checkYCBCRConversion ctx m_caseDef =
     (let (imageFormatResult, imageFormatProperties) =
            getPhysicalDeviceImageFormatProperties ctx (format m_caseDef) (imageType m_caseDef)
              (imageTiling m_caseDef) 0 0
      in if imageFormatResult \<noteq> VK_SUCCESS
            \<or> sampleCounts imageFormatProperties \<noteq> VK_SAMPLE_COUNT_1_BIT
         then False else True)"

definition checkLinearTilingAndNot2DImageType :: "Context \<Rightarrow> CaseDef \<Rightarrow> bool" where
  "checkLinearTilingAndNot2DImageType ctx m_caseDef =
     (let (imageFormatResult, imageFormatProperties) =
            getPhysicalDeviceImageFormatProperties ctx (format m_caseDef) (imageType m_caseDef)
              (imageTiling m_caseDef) 0 0
      in if imageFormatResult \<noteq> VK_SUCCESS then False
         else if sampleCounts imageFormatProperties = VK_SAMPLE_COUNT_1_BIT
                 \<and> (imageTiling m_caseDef = VK_IMAGE_TILING_LINEAR
                      \<or> imageType m_caseDef \<noteq> VK_IMAGE_TYPE_2D)
         then True else False)"

definition checkCubeCompatible :: "Context \<Rightarrow> CaseDef \<Rightarrow> bool" where
  "checkCubeCompatible ctx m_caseDef =
     (let (imageFormatResult, imageFormatProperties) =
            getPhysicalDeviceImageFormatProperties ctx (format m_caseDef) (imageType m_caseDef)
              (imageTiling m_caseDef) 0 VK_IMAGE_CREATE_CUBE_COMPATIBLE_BIT
      in if imageFormatResult \<noteq> VK_SUCCESS
            \<or> sampleCounts imageFormatProperties \<noteq> VK_SAMPLE_COUNT_1_BIT
         then False else True)"

definition checkOptimalTilingFeatures :: "Context \<Rightarrow> CaseDef \<Rightarrow> bool" where
  "checkOptimalTilingFeatures ctx m_caseDef =
     (let formatProperties = getPhysicalDeviceFormatProperties ctx (format m_caseDef);
          (imageFormatResult, imageFormatProperties) =
            getPhysicalDeviceImageFormatProperties ctx (format m_caseDef) (imageType m_caseDef)
              (imageTiling m_caseDef) 0 0
      in if imageFormatResult \<noteq> VK_SUCCESS then False
         else if optimalTilingFeatures formatProperties
                   AND VK_FORMAT_FEATURE_COLOR_ATTACHMENT_BIT = 0
                 \<and> optimalTilingFeatures formatProperties
                     AND VK_FORMAT_FEATURE_DEPTH_STENCIL_ATTACHMENT_BIT = 0
                 \<and> sampleCounts imageFormatProperties \<noteq> VK_SAMPLE_COUNT_1_BIT
         then False else True)"

definition checkOneSampleCountPresent :: "Context \<Rightarrow> CaseDef \<Rightarrow> bool" where
  "checkOneSampleCountPresent ctx m_caseDef =
     (let (imageFormatResult, imageFormatProperties) =
            getPhysicalDeviceImageFormatProperties ctx (format m_caseDef) (imageType m_caseDef)
              (imageTiling m_caseDef) 0 0
      in if imageFormatResult \<noteq> VK_SUCCESS then False
         else if sampleCounts imageFormatProperties AND VK_SAMPLE_COUNT_1_BIT = 0
         then False else True)"

datatype TestStatus = TestStatus_pass string | TestStatus_fail string

fun iterate :: "FormatUtil \<Rightarrow> Context \<Rightarrow> CaseDef \<Rightarrow> SampleCountsSubtests \<Rightarrow> TestStatus" where
  "iterate fu ctx m_caseDef m_subtest =
     (let success =
        (case m_subtest of
           LINEAR_TILING_AND_NOT_2D_IMAGE_TYPE \<Rightarrow> checkLinearTilingAndNot2DImageType ctx m_caseDef
         | CUBE_COMPATIBLE_SUBTEST \<Rightarrow> checkCubeCompatible ctx m_caseDef
         | OPTIMAL_TILING_FEATURES_SUBTEST \<Rightarrow> checkOptimalTilingFeatures ctx m_caseDef
         | YCBCR_CONVERSION_SUBTEST \<Rightarrow> checkYCBCRConversion ctx m_caseDef
         | USAGE_FLAGS_SUBTEST \<Rightarrow> checkUsageFlags fu ctx m_caseDef
         | ONE_SAMPLE_COUNT_PRESENT_SUBTEST \<Rightarrow> checkOneSampleCountPresent ctx m_caseDef)
      in if success then TestStatus_pass ''OK'' else TestStatus_fail ''FAILED'')"

section \<open>The case enumerator\<close>

text \<open>
  A node of the test hierarchy: a test case with its name, description, case definition
  and subtest, or a group with its name, description and children in insertion order.
\<close>

datatype TestNode =
    SampleCountTest string string CaseDef SampleCountsSubtests
  | TestCaseGroup string string "TestNode list"

text \<open>
  The naming and mapping helpers of \<^verbatim>\<open>vktImageTestsUtil\<close> are declared outside the
  sources at hand and are parameters of the model.
\<close>

record ImageTestsUtil =
  mapImageType :: "ImageType \<Rightarrow> VkImageType"
  getImageTypeName :: "ImageType \<Rightarrow> string"
  getImageTilingName :: "VkImageTiling \<Rightarrow> string"

text \<open>
  The twelve \<^verbatim>\<open>VkFormat\<close> enumerators that bound the six format ranges. Their values
  are declared in the Vulkan headers and are parameters of the model.
\<close>

record VkFormatBounds =
  VK_FORMAT_R4G4_UNORM_PACK8 :: VkFormat
  VK_FORMAT_ASTC_12x12_SRGB_BLOCK :: VkFormat
  VK_FORMAT_G8B8G8R8_422_UNORM :: VkFormat
  VK_FORMAT_G16_B16_R16_3PLANE_444_UNORM :: VkFormat
  VK_FORMAT_G8_B8R8_2PLANE_444_UNORM :: VkFormat
  VK_FORMAT_G16_B16R16_2PLANE_444_UNORM :: VkFormat
  VK_FORMAT_A4R4G4B4_UNORM_PACK16 :: VkFormat
  VK_FORMAT_A4B4G4R4_UNORM_PACK16 :: VkFormat
  VK_FORMAT_ASTC_4x4_SFLOAT_BLOCK :: VkFormat
  VK_FORMAT_ASTC_12x12_SFLOAT_BLOCK :: VkFormat
  VK_FORMAT_PVRTC1_2BPP_UNORM_BLOCK_IMG :: VkFormat
  VK_FORMAT_PVRTC2_4BPP_SRGB_BLOCK_IMG :: VkFormat

text \<open>The array \<^verbatim>\<open>usageFlags\<close> of \<^verbatim>\<open>addUsageFlagsSubtests\<close>.\<close>

definition usageFlagBits :: "VkImageUsageFlags list" where
  "usageFlagBits =
     [VK_IMAGE_USAGE_COLOR_ATTACHMENT_BIT,
      VK_IMAGE_USAGE_DEPTH_STENCIL_ATTACHMENT_BIT,
      VK_IMAGE_USAGE_SAMPLED_BIT,
      VK_IMAGE_USAGE_STORAGE_BIT]"

text \<open>The inner loop over \<^verbatim>\<open>flagIdx\<close>: the usage mask of one combination.\<close>

definition combinationUsage :: "32 word \<Rightarrow> VkImageUsageFlags" where
  "combinationUsage flagsCombination =
     fold (\<lambda>flagIdx usage.
             if drop_bit flagIdx flagsCombination AND 1 \<noteq> 0
             then usage OR usageFlagBits ! flagIdx else usage)
          [0..<length usageFlagBits] 0"

definition usageCaseName :: "string \<Rightarrow> VkImageUsageFlags \<Rightarrow> string" where
  "usageCaseName samplesCaseName usage =
     samplesCaseName @ ''_USAGE_FLAGS''
     @ (if usage AND VK_IMAGE_USAGE_COLOR_ATTACHMENT_BIT \<noteq> 0 then ''_COLOR'' else [])
     @ (if usage AND VK_IMAGE_USAGE_DEPTH_STENCIL_ATTACHMENT_BIT \<noteq> 0 then ''_DEPTH'' else [])
     @ (if usage AND VK_IMAGE_USAGE_SAMPLED_BIT \<noteq> 0 then ''_SAMPLED'' else [])
     @ (if usage AND VK_IMAGE_USAGE_STORAGE_BIT \<noteq> 0 then ''_STORAGE'' else [])"

text \<open>
  \<^verbatim>\<open>addUsageFlagsSubtests\<close>: the children it adds to the group, one for each value of
  \<^verbatim>\<open>flagsCombination\<close> below \<^verbatim>\<open>1 << usageFlags.size()\<close>.
\<close>

definition addUsageFlagsSubtests :: "string \<Rightarrow> CaseDef \<Rightarrow> TestNode list" where
  "addUsageFlagsSubtests samplesCaseName caseDef =
     map (\<lambda>flagsCombination.
            let usage = combinationUsage (of_nat flagsCombination);
                caseName = usageCaseName samplesCaseName usage;
                newCaseDef = \<lparr> format = format caseDef, imageType = imageType caseDef,
                               imageTiling = imageTiling caseDef, usageFlags = usage \<rparr>
            in SampleCountTest caseName [] newCaseDef USAGE_FLAGS_SUBTEST)
         [0..<2 ^ length usageFlagBits]"

definition allFormatsRanges :: "VkFormatBounds \<Rightarrow> (VkFormat \<times> VkFormat) list" where
  "allFormatsRanges vk =
     [(VK_FORMAT_R4G4_UNORM_PACK8 vk, VK_FORMAT_ASTC_12x12_SRGB_BLOCK vk),
      (VK_FORMAT_G8B8G8R8_422_UNORM vk, VK_FORMAT_G16_B16_R16_3PLANE_444_UNORM vk),
      (VK_FORMAT_G8_B8R8_2PLANE_444_UNORM vk, VK_FORMAT_G16_B16R16_2PLANE_444_UNORM vk),
      (VK_FORMAT_A4R4G4B4_UNORM_PACK16 vk, VK_FORMAT_A4B4G4R4_UNORM_PACK16 vk),
      (VK_FORMAT_ASTC_4x4_SFLOAT_BLOCK vk, VK_FORMAT_ASTC_12x12_SFLOAT_BLOCK vk),
      (VK_FORMAT_PVRTC1_2BPP_UNORM_BLOCK_IMG vk, VK_FORMAT_PVRTC2_4BPP_SRGB_BLOCK_IMG vk)]"

text \<open>
  The loop over one range, \<^verbatim>\<open>for (format = first; format <= second; format = format + 1)\<close>.
  Format identifiers are 32-bit enumeration values: incrementing the largest of them
  overflows, and the loop has no result then.
\<close>

definition VK_FORMAT_MAX_ENUM :: VkFormat where
  "VK_FORMAT_MAX_ENUM = 0x7FFFFFFF"

function formatsOfRange :: "VkFormat \<Rightarrow> VkFormat \<Rightarrow> VkFormat list option" where
  "formatsOfRange fmt second =
     (if fmt \<le> second then
        (if fmt = VK_FORMAT_MAX_ENUM then None
         else map_option ((#) fmt) (formatsOfRange (fmt + 1) second))
      else Some [])"
  by pat_completeness auto
termination
  by (relation "measure (\<lambda>(fmt, second). nat (second + 1 - fmt))") auto

declare formatsOfRange.simps [simp del]

text \<open>\<^verbatim>\<open>enumerateAllFormatsToTest\<close>: the ranges in order, each appended to the vector.\<close>

fun appendRanges :: "(VkFormat \<times> VkFormat) list \<Rightarrow> VkFormat list \<Rightarrow> VkFormat list option" where
  "appendRanges [] formats = Some formats"
| "appendRanges (rng # ranges) formats =
     (case formatsOfRange (fst rng) (snd rng) of
        None \<Rightarrow> None
      | Some fs \<Rightarrow> appendRanges ranges (formats @ fs))"

definition enumerateAllFormatsToTest :: "VkFormatBounds \<Rightarrow> VkFormat list option" where
  "enumerateAllFormatsToTest vk = appendRanges (allFormatsRanges vk) []"

definition imageTilings :: "VkImageTiling list" where
  "imageTilings = [VK_IMAGE_TILING_OPTIMAL, VK_IMAGE_TILING_LINEAR]"

definition imageTypes :: "ImageType list" where
  "imageTypes = [IMAGE_TYPE_1D, IMAGE_TYPE_2D, IMAGE_TYPE_3D]"

text \<open>
  The body of the innermost loop of \<^verbatim>\<open>createImageSampleCountsTests\<close>: the children
  added to the tiling group for one format.
\<close>

definition formatCases ::
  "FormatUtil \<Rightarrow> ImageTestsUtil \<Rightarrow> ImageType \<Rightarrow> VkImageTiling \<Rightarrow> VkFormat \<Rightarrow> TestNode list" where
  "formatCases fu iu imgType tiling imageFormat =
     (let formatStr = getFormatShortString fu imageFormat;
          caseDef = \<lparr> format = imageFormat, imageType = mapImageType iu imgType,
                      imageTiling = tiling, usageFlags = 0 \<rparr>
      in if imageType caseDef = VK_IMAGE_TYPE_2D \<and> imageTiling caseDef = VK_IMAGE_TILING_OPTIMAL
         then
           [SampleCountTest (formatStr @ ''_CUBE_COMPATIBLE_SUBTEST'') [] caseDef
              CUBE_COMPATIBLE_SUBTEST,
            SampleCountTest (formatStr @ ''_OPTIMAL_TILING_FEATURES_SUBTEST'') [] caseDef
              OPTIMAL_TILING_FEATURES_SUBTEST]
           @ (if isYCbCrFormat fu (format caseDef)
              then [SampleCountTest (formatStr @ ''_YCBCR_CONVERSION_SUBTEST'') [] caseDef
                      YCBCR_CONVERSION_SUBTEST]
              else [])
           @ addUsageFlagsSubtests formatStr caseDef
           @ [SampleCountTest (formatStr @ ''_ONE_SAMPLE_COUNT_PRESENT_SUBTEST'') [] caseDef
                ONE_SAMPLE_COUNT_PRESENT_SUBTEST]
         else
           [SampleCountTest (formatStr @ ''_LINEAR_TILING_AND_NOT_2D_IMAGE_TYPE_SUBTEST'') []
              caseDef LINEAR_TILING_AND_NOT_2D_IMAGE_TYPE])"

definition createImageSampleCountsTests ::
  "FormatUtil \<Rightarrow> ImageTestsUtil \<Rightarrow> VkFormatBounds \<Rightarrow> TestNode option" where
  "createImageSampleCountsTests fu iu vk =
     (case enumerateAllFormatsToTest vk of
        None \<Rightarrow> None
      | Some formats \<Rightarrow>
          Some (TestCaseGroup ''sample_counts'' ''Image sample counts''
            (map (\<lambda>imgType.
                    TestCaseGroup (getImageTypeName iu imgType) []
                      (map (\<lambda>tiling.
                              TestCaseGroup (getImageTilingName iu tiling) []
                                (concat (map (formatCases fu iu imgType tiling) formats)))
                           imageTilings))
                 imageTypes)))"

text \<open>
  The enumerated grid read off the hierarchy: every test case with the names of the groups
  above it, outermost first.
\<close>

fun testCases :: "string list \<Rightarrow> TestNode \<Rightarrow> (string list \<times> TestNode) list" where
  "testCases path (SampleCountTest name description caseDef subtest) =
     [(path, SampleCountTest name description caseDef subtest)]"
| "testCases path (TestCaseGroup name description children) =
     concat (map (testCases (path @ [name])) children)"

fun testName :: "TestNode \<Rightarrow> string" where
  "testName (SampleCountTest name description caseDef subtest) = name"
| "testName (TestCaseGroup name description children) = name"

definition enumeratedCases ::
  "FormatUtil \<Rightarrow> ImageTestsUtil \<Rightarrow> VkFormatBounds \<Rightarrow> (string list \<times> TestNode) list" where
  "enumeratedCases fu iu vk =
     (case createImageSampleCountsTests fu iu vk of
        None \<Rightarrow> []
      | Some root \<Rightarrow> testCases [] root)"

fun testCaseDef :: "TestNode \<Rightarrow> CaseDef option" where
  "testCaseDef (SampleCountTest name description caseDef subtest) = Some caseDef"
| "testCaseDef (TestCaseGroup name description children) = None"

fun testSubtest :: "TestNode \<Rightarrow> SampleCountsSubtests option" where
  "testSubtest (SampleCountTest name description caseDef subtest) = Some subtest"
| "testSubtest (TestCaseGroup name description children) = None"

text \<open>
  The increment of the range loop is defined when the upper bound of each of the six
  ranges lies below the largest value of the enumeration.
\<close>

definition boundsBelowMax :: "VkFormatBounds \<Rightarrow> bool" where
  "boundsBelowMax vk =
     (VK_FORMAT_ASTC_12x12_SRGB_BLOCK vk < VK_FORMAT_MAX_ENUM
      \<and> VK_FORMAT_G16_B16_R16_3PLANE_444_UNORM vk < VK_FORMAT_MAX_ENUM
      \<and> VK_FORMAT_G16_B16R16_2PLANE_444_UNORM vk < VK_FORMAT_MAX_ENUM
      \<and> VK_FORMAT_A4B4G4R4_UNORM_PACK16 vk < VK_FORMAT_MAX_ENUM
      \<and> VK_FORMAT_ASTC_12x12_SFLOAT_BLOCK vk < VK_FORMAT_MAX_ENUM
      \<and> VK_FORMAT_PVRTC2_4BPP_SRGB_BLOCK_IMG vk < VK_FORMAT_MAX_ENUM)"

section \<open>The enumerated cases in the words of the specification\<close>

text \<open>
  The specification describes the format universe as six ranges of contiguous format
  identifiers, each visited from its first to its last identifier inclusive, and the grid
  as the image types 1D, 2D, 3D, each with the tilings OPTIMAL and LINEAR, each with every
  format of the universe.
\<close>

definition formatUniverse :: "VkFormatBounds \<Rightarrow> VkFormat list" where
  "formatUniverse vk =
     [VK_FORMAT_R4G4_UNORM_PACK8 vk..VK_FORMAT_ASTC_12x12_SRGB_BLOCK vk]
     @ [VK_FORMAT_G8B8G8R8_422_UNORM vk..VK_FORMAT_G16_B16_R16_3PLANE_444_UNORM vk]
     @ [VK_FORMAT_G8_B8R8_2PLANE_444_UNORM vk..VK_FORMAT_G16_B16R16_2PLANE_444_UNORM vk]
     @ [VK_FORMAT_A4R4G4B4_UNORM_PACK16 vk..VK_FORMAT_A4B4G4R4_UNORM_PACK16 vk]
     @ [VK_FORMAT_ASTC_4x4_SFLOAT_BLOCK vk..VK_FORMAT_ASTC_12x12_SFLOAT_BLOCK vk]
     @ [VK_FORMAT_PVRTC1_2BPP_UNORM_BLOCK_IMG vk..VK_FORMAT_PVRTC2_4BPP_SRGB_BLOCK_IMG vk]"

text \<open>
  The specification describes the usage-flags cases as one case for each subset of the
  four usage bits, named by the mnemonics of the active flags in the order COLOR, DEPTH,
  SAMPLED, STORAGE. A subset is four booleans; \<open>usageSubsets\<close> lists all sixteen, the
  colour bit varying fastest.
\<close>

definition usageOfSubset :: "bool \<Rightarrow> bool \<Rightarrow> bool \<Rightarrow> bool \<Rightarrow> VkImageUsageFlags" where
  "usageOfSubset color depth sampled storage =
     (if color then VK_IMAGE_USAGE_COLOR_ATTACHMENT_BIT else 0)
     OR (if depth then VK_IMAGE_USAGE_DEPTH_STENCIL_ATTACHMENT_BIT else 0)
     OR (if sampled then VK_IMAGE_USAGE_SAMPLED_BIT else 0)
     OR (if storage then VK_IMAGE_USAGE_STORAGE_BIT else 0)"

definition mnemonicsOfSubset :: "bool \<Rightarrow> bool \<Rightarrow> bool \<Rightarrow> bool \<Rightarrow> string" where
  "mnemonicsOfSubset color depth sampled storage =
     (if color then ''_COLOR'' else []) @ (if depth then ''_DEPTH'' else [])
     @ (if sampled then ''_SAMPLED'' else []) @ (if storage then ''_STORAGE'' else [])"

definition usageSubsets :: "(bool \<times> bool \<times> bool \<times> bool) list" where
  "usageSubsets =
     concat (map (\<lambda>storage. concat (map (\<lambda>sampled. concat (map (\<lambda>depth.
       map (\<lambda>color. (color, depth, sampled, storage)) [False, True])
       [False, True])) [False, True])) [False, True])"

definition usageCase :: "string \<Rightarrow> CaseDef \<Rightarrow> bool \<times> bool \<times> bool \<times> bool \<Rightarrow> TestNode" where
  "usageCase formatStr caseDef picked =
     (case picked of (color, depth, sampled, storage) \<Rightarrow>
        SampleCountTest
          (formatStr @ ''_USAGE_FLAGS'' @ mnemonicsOfSubset color depth sampled storage) []
          (caseDef\<lparr>usageFlags := usageOfSubset color depth sampled storage\<rparr>)
          USAGE_FLAGS_SUBTEST)"

text \<open>
  The variant tags of the case names, each with the usage mask and the subtest of the
  case that carries it, and the case built from a tag for one cell of the grid.
\<close>

definition caseTags :: "(string \<times> VkImageUsageFlags \<times> SampleCountsSubtests) list" where
  "caseTags =
     [(''_CUBE_COMPATIBLE_SUBTEST'', 0, CUBE_COMPATIBLE_SUBTEST),
      (''_OPTIMAL_TILING_FEATURES_SUBTEST'', 0, OPTIMAL_TILING_FEATURES_SUBTEST),
      (''_YCBCR_CONVERSION_SUBTEST'', 0, YCBCR_CONVERSION_SUBTEST)]
     @ map (\<lambda>(color, depth, sampled, storage).
              (''_USAGE_FLAGS'' @ mnemonicsOfSubset color depth sampled storage,
               usageOfSubset color depth sampled storage, USAGE_FLAGS_SUBTEST)) usageSubsets
     @ [(''_ONE_SAMPLE_COUNT_PRESENT_SUBTEST'', 0, ONE_SAMPLE_COUNT_PRESENT_SUBTEST),
        (''_LINEAR_TILING_AND_NOT_2D_IMAGE_TYPE_SUBTEST'', 0, LINEAR_TILING_AND_NOT_2D_IMAGE_TYPE)]"

definition taggedCase :: "FormatUtil \<Rightarrow> ImageTestsUtil \<Rightarrow> ImageType \<Rightarrow> VkImageTiling \<Rightarrow> VkFormat
    \<Rightarrow> string \<times> VkImageUsageFlags \<times> SampleCountsSubtests \<Rightarrow> TestNode" where
  "taggedCase fu iu imgType tiling f entry =
     (case entry of (tag, u, v) \<Rightarrow>
        SampleCountTest (getFormatShortString fu f @ tag) []
          \<lparr> format = f, imageType = mapImageType iu imgType, imageTiling = tiling,
            usageFlags = u \<rparr> v)"

text \<open>
  The variant tags are told apart from what precedes them by their first three
  characters: every tag starts with one of six heads, and no head occurs inside a tag
  after its first character.
\<close>

definition tagHeads :: "string list" where
  "tagHeads = [''_CU'', ''_OP'', ''_YC'', ''_US'', ''_ON'', ''_LI'']"

fun noHeadInside :: "string \<Rightarrow> bool" where
  "noHeadInside [] = True"
| "noHeadInside (c # cs) = (take 3 (c # cs) \<notin> set tagHeads \<and> noHeadInside cs)"

definition tagShape :: "string \<Rightarrow> bool" where
  "tagShape tag = (take 3 tag \<in> set tagHeads \<and> noHeadInside (tl tag))"

section \<open>The combinator in the words of the specification\<close>

text \<open>
  The specification describes the expected set of the usage-flags check as a combinator
  over the four per-usage results: the results of the usage bits that are set are
  collected; with no bit set the expected set is the single-sample set, with one
  contributing result it is that result, with several it is their bitwise intersection.
  The definitions below follow these words; they are compared with \<open>expectedFlags\<close>,
  which follows the code.
\<close>

record PerBitResults =
  colorSampleCounts :: VkSampleCountFlags
  depthStencilSampleCounts :: VkSampleCountFlags
  sampledSampleCounts :: VkSampleCountFlags
  storageSampleCounts :: VkSampleCountFlags

definition contributing :: "VkImageUsageFlags \<Rightarrow> PerBitResults \<Rightarrow> VkSampleCountFlags list" where
  "contributing usage perBitResults =
     map snd (filter (\<lambda>(usageBit, result). usage AND usageBit \<noteq> 0)
       [(VK_IMAGE_USAGE_COLOR_ATTACHMENT_BIT, colorSampleCounts perBitResults),
        (VK_IMAGE_USAGE_DEPTH_STENCIL_ATTACHMENT_BIT, depthStencilSampleCounts perBitResults),
        (VK_IMAGE_USAGE_SAMPLED_BIT, sampledSampleCounts perBitResults),
        (VK_IMAGE_USAGE_STORAGE_BIT, storageSampleCounts perBitResults)])"

definition combine :: "VkImageUsageFlags \<Rightarrow> PerBitResults \<Rightarrow> VkSampleCountFlags" where
  "combine usage perBitResults =
     (case contributing usage perBitResults of
        [] \<Rightarrow> VK_SAMPLE_COUNT_1_BIT
      | [result] \<Rightarrow> result
      | results \<Rightarrow> foldr (AND) results (- 1))"

text \<open>The four per-usage results of a case, as the code computes them.\<close>

definition perUsageResults ::
  "FormatUtil \<Rightarrow> CaseDef \<Rightarrow> VkPhysicalDeviceLimits \<Rightarrow> VkPhysicalDeviceVulkan12Properties
    \<Rightarrow> PerBitResults" where
  "perUsageResults fu cd limits p12 =
     \<lparr> colorSampleCounts = getColorSampleCounts fu cd limits p12,
       depthStencilSampleCounts = getDepthStencilSampleCounts fu cd limits,
       sampledSampleCounts = getSampledSampleCounts fu cd limits,
       storageSampleCounts = getStorageSampleCounts limits \<rparr>"

text \<open>The contribution of one usage bit to the intersection: its result when the bit is
  set, the full mask otherwise.\<close>

definition pick ::
  "VkImageUsageFlags \<Rightarrow> VkImageUsageFlags \<Rightarrow> VkSampleCountFlags \<Rightarrow> VkSampleCountFlags" where
  "pick usage usageBit result = (if usage AND usageBit \<noteq> 0 then result else - 1)"

definition fourUsageBits :: VkImageUsageFlags where
  "fourUsageBits =
     VK_IMAGE_USAGE_COLOR_ATTACHMENT_BIT OR VK_IMAGE_USAGE_DEPTH_STENCIL_ATTACHMENT_BIT
     OR VK_IMAGE_USAGE_SAMPLED_BIT OR VK_IMAGE_USAGE_STORAGE_BIT"

section \<open>An example device and example formats\<close>

text \<open>
  A handful of formats with the classification the Vulkan format table gives them:
  13 is an 8-bit unsigned-integer colour format, 37 an unsigned-normalized RGBA format,
  124 a depth format, 127 a stencil format, 129 a combined depth and stencil format, 131 a
  block-compressed format and 1000156002 a three-plane YCbCr format.
\<close>

definition exampleFormats :: FormatUtil where
  "exampleFormats =
     \<lparr> isCompressedFormat = (\<lambda>f. f = 131),
       isFloatFormat = (\<lambda>f. False),
       isSnormFormat = (\<lambda>f. False),
       isUnormFormat = (\<lambda>f. f = 37 \<or> f = 124),
       isIntFormat = (\<lambda>f. False),
       isUintFormat = (\<lambda>f. f = 13 \<or> f = 127),
       isYCbCrFormat = (\<lambda>f. f = 1000156002),
       mapVkFormat = (\<lambda>f. \<lparr> order = (if f = 13 then R else if f = 124 then D
                                        else if f = 127 then S else if f = 129 then DS
                                        else RGBA) \<rparr>),
       getFormatShortString = (\<lambda>f. replicate (nat f) CHR ''x'') \<rparr>"

definition exampleLimits :: VkPhysicalDeviceLimits where
  "exampleLimits =
     \<lparr> framebufferColorSampleCounts = 0xF,
       framebufferDepthSampleCounts = 0x7,
       framebufferStencilSampleCounts = 0x3,
       sampledImageColorSampleCounts = 0x7,
       sampledImageIntegerSampleCounts = 0x1,
       sampledImageDepthSampleCounts = 0x7,
       storageImageSampleCounts = 0x7 \<rparr>"

definition exampleProperties12 :: VkPhysicalDeviceVulkan12Properties where
  "exampleProperties12 = \<lparr> framebufferIntegerColorSampleCounts = 0x5 \<rparr>"

definition exampleCase :: "VkFormat \<Rightarrow> VkImageUsageFlags \<Rightarrow> CaseDef" where
  "exampleCase f u = \<lparr> format = f, imageType = VK_IMAGE_TYPE_2D,
                        imageTiling = VK_IMAGE_TILING_OPTIMAL, usageFlags = u \<rparr>"

text \<open>
  A device with the given optimal-tiling features for every format, which supports every
  configuration created without flags, reporting the given sample counts, and no
  configuration created with a flag.
\<close>

definition exampleContext :: "VkFormatFeatureFlags \<Rightarrow> VkSampleCountFlags \<Rightarrow> Context" where
  "exampleContext features counts =
     \<lparr> getPhysicalDeviceFormatProperties = (\<lambda>f. \<lparr> optimalTilingFeatures = features \<rparr>),
       getPhysicalDeviceProperties2 = (exampleLimits, exampleProperties12),
       getPhysicalDeviceImageFormatProperties =
         (\<lambda>f ty tiling usage createFlags.
            if createFlags = 0 then (VK_SUCCESS, \<lparr> sampleCounts = counts \<rparr>)
            else (VK_ERROR_FORMAT_NOT_SUPPORTED, \<lparr> sampleCounts = 0 \<rparr>)) \<rparr>"

text \<open>
  Naming and mapping helpers for the three image types and the two tilings, and the
  bounds of the six format ranges with the values the Vulkan headers give them.
\<close>

definition exampleImageUtil :: ImageTestsUtil where
  "exampleImageUtil =
     \<lparr> mapImageType = (\<lambda>t. case t of IMAGE_TYPE_1D \<Rightarrow> VK_IMAGE_TYPE_1D
                              | IMAGE_TYPE_2D \<Rightarrow> VK_IMAGE_TYPE_2D
                              | IMAGE_TYPE_3D \<Rightarrow> VK_IMAGE_TYPE_3D),
       getImageTypeName = (\<lambda>t. case t of IMAGE_TYPE_1D \<Rightarrow> ''1d''
                              | IMAGE_TYPE_2D \<Rightarrow> ''2d''
                              | IMAGE_TYPE_3D \<Rightarrow> ''3d''),
       getImageTilingName = (\<lambda>t. case t of VK_IMAGE_TILING_OPTIMAL \<Rightarrow> ''optimal''
                              | VK_IMAGE_TILING_LINEAR \<Rightarrow> ''linear'') \<rparr>"

definition vulkanFormatBounds :: VkFormatBounds where
  "vulkanFormatBounds =
     \<lparr> VK_FORMAT_R4G4_UNORM_PACK8 = 1,
       VK_FORMAT_ASTC_12x12_SRGB_BLOCK = 184,
       VK_FORMAT_G8B8G8R8_422_UNORM = 1000156000,
       VK_FORMAT_G16_B16_R16_3PLANE_444_UNORM = 1000156033,
       VK_FORMAT_G8_B8R8_2PLANE_444_UNORM = 1000330000,
       VK_FORMAT_G16_B16R16_2PLANE_444_UNORM = 1000330003,
       VK_FORMAT_A4R4G4B4_UNORM_PACK16 = 1000340000,
       VK_FORMAT_A4B4G4R4_UNORM_PACK16 = 1000340001,
       VK_FORMAT_ASTC_4x4_SFLOAT_BLOCK = 1000066000,
       VK_FORMAT_ASTC_12x12_SFLOAT_BLOCK = 1000066013,
       VK_FORMAT_PVRTC1_2BPP_UNORM_BLOCK_IMG = 1000054000,
       VK_FORMAT_PVRTC2_4BPP_SRGB_BLOCK_IMG = 1000054007 \<rparr>"

section \<open>Properties of the per-usage rules\<close>

text \<open>
  Claim C4. For every format and every device, \<open>getColorSampleCounts\<close> is 0 for a
  compressed format; for a format that is not compressed it is the framebuffer colour
  limit when the format is floating-point, signed-normalized or unsigned-normalized,
  otherwise the framebuffer integer colour limit of the Vulkan 1.2 properties when the
  format is a signed or unsigned integer format, and 0 for every other format.
\<close>

theorem getColorSampleCounts_cases:
  "(isCompressedFormat fu (format cd) \<longrightarrow> getColorSampleCounts fu cd limits p12 = 0)
   \<and> (\<not> isCompressedFormat fu (format cd)
        \<and> (isFloatFormat fu (format cd) \<or> isSnormFormat fu (format cd)
            \<or> isUnormFormat fu (format cd))
       \<longrightarrow> getColorSampleCounts fu cd limits p12 = framebufferColorSampleCounts limits)
   \<and> (\<not> isCompressedFormat fu (format cd)
        \<and> \<not> (isFloatFormat fu (format cd) \<or> isSnormFormat fu (format cd)
              \<or> isUnormFormat fu (format cd))
        \<and> (isIntFormat fu (format cd) \<or> isUintFormat fu (format cd))
       \<longrightarrow> getColorSampleCounts fu cd limits p12 = framebufferIntegerColorSampleCounts p12)
   \<and> (\<not> isCompressedFormat fu (format cd)
        \<and> \<not> (isFloatFormat fu (format cd) \<or> isSnormFormat fu (format cd)
              \<or> isUnormFormat fu (format cd))
        \<and> \<not> (isIntFormat fu (format cd) \<or> isUintFormat fu (format cd))
       \<longrightarrow> getColorSampleCounts fu cd limits p12 = 0)"
  by (simp add: getColorSampleCounts_def)

theorem getColorSampleCounts_cases_witness:
  "getColorSampleCounts exampleFormats (exampleCase 131 0) exampleLimits exampleProperties12 = 0
   \<and> getColorSampleCounts exampleFormats (exampleCase 37 0) exampleLimits exampleProperties12 = 0xF
   \<and> getColorSampleCounts exampleFormats (exampleCase 13 0) exampleLimits exampleProperties12 = 0x5
   \<and> getColorSampleCounts exampleFormats (exampleCase 129 0) exampleLimits exampleProperties12 = 0"
  using getColorSampleCounts_cases [of exampleFormats "exampleCase 131 0" exampleLimits exampleProperties12]
    getColorSampleCounts_cases [of exampleFormats "exampleCase 37 0" exampleLimits exampleProperties12]
    getColorSampleCounts_cases [of exampleFormats "exampleCase 13 0" exampleLimits exampleProperties12]
    getColorSampleCounts_cases [of exampleFormats "exampleCase 129 0" exampleLimits exampleProperties12]
  by (simp add: exampleFormats_def exampleCase_def exampleLimits_def exampleProperties12_def)

text \<open>
  Claim C1, at an integer colour format. Format 13 is an unsigned-integer format, neither
  compressed nor YCbCr, whose channel order is a colour order. The sampled-usage rule
  returns the sampled-image colour limit for it, not the sampled-image integer limit: the
  colour branch returns before the integer test is reached.
\<close>

theorem getSampledSampleCounts_integer_color_format:
  "isUintFormat exampleFormats 13 \<and> \<not> isCompressedFormat exampleFormats 13
   \<and> \<not> isYCbCrFormat exampleFormats 13 \<and> order (mapVkFormat exampleFormats 13) = R
   \<and> getSampledSampleCounts exampleFormats (exampleCase 13 VK_IMAGE_USAGE_SAMPLED_BIT)
         exampleLimits = sampledImageColorSampleCounts exampleLimits
   \<and> getSampledSampleCounts exampleFormats (exampleCase 13 VK_IMAGE_USAGE_SAMPLED_BIT)
         exampleLimits \<noteq> sampledImageIntegerSampleCounts exampleLimits"
  by (simp add: getSampledSampleCounts_def exampleFormats_def exampleCase_def exampleLimits_def)

text \<open>
  Claim C2, at a combined depth and stencil format. Format 129 is not compressed and its
  channel order is DS, so it has a depth aspect. The depth/stencil rule returns 0 for it
  although the framebuffer depth limit of the device is not 0: the rule compares the
  order with D and with S only.
\<close>

theorem getDepthStencilSampleCounts_depth_stencil_format:
  "\<not> isCompressedFormat exampleFormats 129 \<and> order (mapVkFormat exampleFormats 129) = DS
   \<and> getDepthStencilSampleCounts exampleFormats
         (exampleCase 129 VK_IMAGE_USAGE_DEPTH_STENCIL_ATTACHMENT_BIT) exampleLimits = 0
   \<and> framebufferDepthSampleCounts exampleLimits \<noteq> 0"
  by (simp add: getDepthStencilSampleCounts_def exampleFormats_def exampleCase_def exampleLimits_def)

text \<open>
  The two rules by channel order, for every format: the sampled-usage rule reaches its
  integer test for the stencil order only, and the depth/stencil rule answers 0 for the
  combined order.
\<close>

lemma getSampledSampleCounts_by_order:
  assumes "\<not> isCompressedFormat fu (format cd)" and "\<not> isYCbCrFormat fu (format cd)"
  shows "getSampledSampleCounts fu cd limits =
     (if order (mapVkFormat fu (format cd)) = D \<or> order (mapVkFormat fu (format cd)) = DS
      then sampledImageDepthSampleCounts limits
      else if order (mapVkFormat fu (format cd)) = S
      then (if isIntFormat fu (format cd) \<or> isUintFormat fu (format cd)
            then sampledImageIntegerSampleCounts limits else 0)
      else sampledImageColorSampleCounts limits)"
  using assms by (simp add: getSampledSampleCounts_def Let_def)

lemma getDepthStencilSampleCounts_by_order:
  "getDepthStencilSampleCounts fu cd limits =
     (if isCompressedFormat fu (format cd) then 0
      else if order (mapVkFormat fu (format cd)) = D then framebufferDepthSampleCounts limits
      else if order (mapVkFormat fu (format cd)) = S then framebufferStencilSampleCounts limits
      else 0)"
  by (simp add: getDepthStencilSampleCounts_def Let_def)

section \<open>Properties of the checks\<close>

text \<open>
  Claim C5. In the usage-flags check, when the optimal-tiling features of the format
  contain neither the colour-attachment bit nor the depth/stencil-attachment bit, the
  check passes exactly when the device answered the query with success and reported the
  sample-count set that holds the single-sample bit alone. The usage flags of the case,
  the limits and the format classification play no part.
\<close>

theorem checkUsageFlags_feature_gate:
  assumes "optimalTilingFeatures (getPhysicalDeviceFormatProperties ctx (format cd))
             AND VK_FORMAT_FEATURE_COLOR_ATTACHMENT_BIT = 0"
      and "optimalTilingFeatures (getPhysicalDeviceFormatProperties ctx (format cd))
             AND VK_FORMAT_FEATURE_DEPTH_STENCIL_ATTACHMENT_BIT = 0"
      and "getPhysicalDeviceImageFormatProperties ctx (format cd) (imageType cd) (imageTiling cd)
             (usageFlags cd) 0 = (res, props)"
  shows "checkUsageFlags fu ctx cd
           = (res = VK_SUCCESS \<and> sampleCounts props = VK_SAMPLE_COUNT_1_BIT)"
proof -
  have "optimalTilingFeatures (getPhysicalDeviceFormatProperties ctx (format cd))
          AND (VK_FORMAT_FEATURE_COLOR_ATTACHMENT_BIT
               OR VK_FORMAT_FEATURE_DEPTH_STENCIL_ATTACHMENT_BIT) = 0"
    using assms(1,2) by (simp add: bit.conj_disj_distrib)
  then show ?thesis
    using assms(3) by (auto simp add: checkUsageFlags_def Let_def split: prod.splits)
qed

theorem checkUsageFlags_feature_gate_witness:
  "checkUsageFlags exampleFormats (exampleContext 0x1 0x1)
     (exampleCase 131 VK_IMAGE_USAGE_SAMPLED_BIT)
   \<and> \<not> checkUsageFlags exampleFormats (exampleContext 0x1 0x3)
         (exampleCase 131 VK_IMAGE_USAGE_SAMPLED_BIT)"
  using checkUsageFlags_feature_gate [of "exampleContext 0x1 0x1"
      "exampleCase 131 VK_IMAGE_USAGE_SAMPLED_BIT" VK_SUCCESS "\<lparr> sampleCounts = 0x1 \<rparr>"
      exampleFormats]
    checkUsageFlags_feature_gate [of "exampleContext 0x1 0x3"
      "exampleCase 131 VK_IMAGE_USAGE_SAMPLED_BIT" VK_SUCCESS "\<lparr> sampleCounts = 0x3 \<rparr>"
      exampleFormats]
  by (simp add: exampleContext_def exampleCase_def VK_FORMAT_FEATURE_COLOR_ATTACHMENT_BIT_def
      VK_FORMAT_FEATURE_DEPTH_STENCIL_ATTACHMENT_BIT_def VK_SAMPLE_COUNT_1_BIT_def)

text \<open>
  Claim C6, at the cube-compatible subtest. The example device supports the configuration
  of the case when it is created without flags, so \<open>checkSupport\<close> does not throw; it
  answers the query with the cube-compatible flag, which the subtest issues, with
  format-not-supported, and the subtest reports a failure.
\<close>

theorem checkCubeCompatible_not_supported_fails:
  "checkSupport (exampleContext 0x1 0x1) (exampleCase 1000156002 0) = Inr ()
   \<and> fst (getPhysicalDeviceImageFormatProperties (exampleContext 0x1 0x1) 1000156002
            VK_IMAGE_TYPE_2D VK_IMAGE_TILING_OPTIMAL 0 VK_IMAGE_CREATE_CUBE_COMPATIBLE_BIT)
       = VK_ERROR_FORMAT_NOT_SUPPORTED
   \<and> iterate exampleFormats (exampleContext 0x1 0x1) (exampleCase 1000156002 0)
         CUBE_COMPATIBLE_SUBTEST = TestStatus_fail ''FAILED''"
  by (simp add: checkSupport_def checkCubeCompatible_def exampleContext_def exampleCase_def
      VK_IMAGE_CREATE_CUBE_COMPATIBLE_BIT_def VK_SUCCESS_def VK_ERROR_FORMAT_NOT_SUPPORTED_def)

text \<open>
  The other five subtests query the configuration that \<open>checkSupport\<close> probed, the
  usage-flags subtest with the usage flags of the case and the rest with none: there a
  format-not-supported answer makes \<open>checkSupport\<close> throw, and any other answer than
  success makes the subtest fail.
\<close>

lemma checkSupport_not_supported:
  "fst (getPhysicalDeviceImageFormatProperties ctx (format cd) (imageType cd) (imageTiling cd)
          (usageFlags cd) 0) = VK_ERROR_FORMAT_NOT_SUPPORTED
   \<longleftrightarrow> checkSupport ctx cd = Inl (NotSupportedError ''Format is not supported'')"
  by (simp add: checkSupport_def split_def)

lemma iterate_query_failure:
  assumes "subtest \<noteq> CUBE_COMPATIBLE_SUBTEST"
      and "subtest = USAGE_FLAGS_SUBTEST \<or> usageFlags cd = 0"
      and "fst (getPhysicalDeviceImageFormatProperties ctx (format cd) (imageType cd)
                 (imageTiling cd) (usageFlags cd) 0) \<noteq> VK_SUCCESS"
  shows "iterate fu ctx cd subtest = TestStatus_fail ''FAILED''"
  using assms
  by (cases subtest)
     (auto simp add: checkLinearTilingAndNot2DImageType_def checkOptimalTilingFeatures_def
        checkYCBCRConversion_def checkUsageFlags_def checkOneSampleCountPresent_def
        split_def Let_def)

section \<open>Properties of the usage-flags combinator\<close>

lemma isSuperset_refl: "isSuperset a a"
  by (simp add: isSuperset_def)

lemma isSuperset_top: "isSuperset (- 1) a"
  by (simp add: isSuperset_def)

lemma isSuperset_zero: "isSuperset a 0"
  by (simp add: isSuperset_def)

lemma isSuperset_and:
  assumes "isSuperset a' a" and "isSuperset b' b"
  shows "isSuperset (a' AND b') (a AND b)"
proof -
  have "(a' AND b') AND (a AND b) = (a' AND a) AND (b' AND b)"
    by (simp add: ac_simps)
  also have "\<dots> = a AND b"
    using assms by (simp add: isSuperset_def)
  finally show ?thesis by (simp add: isSuperset_def)
qed

lemma usage_bit_mono:
  assumes "(u::32 word) AND v = u" and "u AND c \<noteq> 0"
  shows "v AND c \<noteq> 0"
proof
  assume z: "v AND c = 0"
  have "u AND c = (u AND v) AND c" by (simp add: assms(1))
  also have "\<dots> = u AND (v AND c)" by (simp add: and.assoc)
  finally show False using assms(2) z by simp
qed

lemma pick_mono:
  assumes "u AND v = u"
  shows "isSuperset (pick u c r) (pick v c r)"
proof (cases "u AND c \<noteq> 0")
  case True
  then have "v AND c \<noteq> 0" using assms by (rule usage_bit_mono [rotated])
  with True show ?thesis by (simp add: pick_def isSuperset_refl)
next
  case False
  then show ?thesis by (simp add: pick_def isSuperset_top)
qed

lemma fold_and_init:
  "fold (\<lambda>setFlags acc. acc AND setFlags) xs (a::32 word)
     = a AND fold (\<lambda>setFlags acc. acc AND setFlags) xs (- 1)"
proof (induction xs arbitrary: a)
  case Nil
  show ?case by simp
next
  case (Cons x xs)
  have "fold (\<lambda>setFlags acc. acc AND setFlags) (x # xs) a
        = fold (\<lambda>setFlags acc. acc AND setFlags) xs (a AND x)" by simp
  also have "\<dots> = (a AND x) AND fold (\<lambda>setFlags acc. acc AND setFlags) xs (- 1)"
    by (rule Cons.IH)
  also have "\<dots> = a AND (x AND fold (\<lambda>setFlags acc. acc AND setFlags) xs (- 1))"
    by (simp add: and.assoc)
  also have "x AND fold (\<lambda>setFlags acc. acc AND setFlags) xs (- 1)
        = fold (\<lambda>setFlags acc. acc AND setFlags) xs (- 1 AND x)"
    using Cons.IH [of x] by simp
  finally show ?case by simp
qed

lemma fold_and_foldr:
  "fold (\<lambda>setFlags acc. acc AND setFlags) xs (- 1 :: 32 word) = foldr (AND) xs (- 1)"
proof (induction xs)
  case Nil
  show ?case by simp
next
  case (Cons x xs)
  have "fold (\<lambda>setFlags acc. acc AND setFlags) (x # xs) (- 1)
        = fold (\<lambda>setFlags acc. acc AND setFlags) xs x" by simp
  also have "\<dots> = x AND fold (\<lambda>setFlags acc. acc AND setFlags) xs (- 1)"
    by (rule fold_and_init)
  finally show ?case using Cons.IH by simp
qed

text \<open>
  The loop of the check starts from the first entry of the vector and meets that entry
  again: its result is the intersection of all entries.
\<close>

lemma expectedFlags_loop:
  "fold (\<lambda>setFlags acc. acc AND setFlags) (first # rest) first
     = foldr (AND) (first # rest) (- 1 :: 32 word)"
proof -
  have "fold (\<lambda>setFlags acc. acc AND setFlags) (first # rest) first
        = first AND fold (\<lambda>setFlags acc. acc AND setFlags) (first # rest) (- 1)"
    by (rule fold_and_init)
  also have "\<dots> = first AND foldr (AND) (first # rest) (- 1)"
    by (simp only: fold_and_foldr)
  also have "\<dots> = foldr (AND) (first # rest) (- 1)"
    by (simp add: and.assoc [symmetric])
  finally show ?thesis .
qed

lemma foldr_and_zero: "(0::32 word) \<in> set xs \<Longrightarrow> foldr (AND) xs (- 1) = 0"
  by (induction xs) auto

lemma expectedSupersets_contributing:
  "expectedSupersets fu cd limits p12
     = contributing (usageFlags cd) (perUsageResults fu cd limits p12)"
  by (simp add: expectedSupersets_def contributing_def perUsageResults_def)

lemma expectedFlags_foldr:
  "expectedFlags fu cd limits p12 =
     (if expectedSupersets fu cd limits p12 = [] then VK_SAMPLE_COUNT_1_BIT
      else foldr (AND) (expectedSupersets fu cd limits p12) (- 1))"
proof (cases "expectedSupersets fu cd limits p12")
  case Nil
  then show ?thesis by (simp add: expectedFlags_def)
next
  case (Cons first rest)
  then show ?thesis
    by (simp only: expectedFlags_def list.case expectedFlags_loop list.distinct if_False)
qed

lemma expectedFlags_combine:
  "expectedFlags fu cd limits p12 = combine (usageFlags cd) (perUsageResults fu cd limits p12)"
proof -
  have "combine u r = (if contributing u r = [] then VK_SAMPLE_COUNT_1_BIT
        else foldr (AND) (contributing u r) (- 1))" for u r
    unfolding combine_def
    by (cases "contributing u r" rule: list.exhaust; simp split: list.splits)
  then show ?thesis
    by (simp only: expectedFlags_foldr expectedSupersets_contributing)
qed

lemma foldr_expectedSupersets:
  "foldr (AND) (expectedSupersets fu cd limits p12) (- 1) =
     pick (usageFlags cd) VK_IMAGE_USAGE_COLOR_ATTACHMENT_BIT
       (getColorSampleCounts fu cd limits p12)
     AND (pick (usageFlags cd) VK_IMAGE_USAGE_DEPTH_STENCIL_ATTACHMENT_BIT
            (getDepthStencilSampleCounts fu cd limits)
     AND (pick (usageFlags cd) VK_IMAGE_USAGE_SAMPLED_BIT (getSampledSampleCounts fu cd limits)
     AND pick (usageFlags cd) VK_IMAGE_USAGE_STORAGE_BIT (getStorageSampleCounts limits)))"
  by (simp add: expectedSupersets_def pick_def)

lemma expectedSupersets_empty_iff:
  "expectedSupersets fu cd limits p12 = [] \<longleftrightarrow> usageFlags cd AND fourUsageBits = 0"
  by (simp add: expectedSupersets_def fourUsageBits_def bit.conj_disj_distrib or_eq_0_iff)

lemma rules_ignore_usage:
  "getColorSampleCounts fu (cd\<lparr>usageFlags := u\<rparr>) limits p12
     = getColorSampleCounts fu cd limits p12"
  "getDepthStencilSampleCounts fu (cd\<lparr>usageFlags := u\<rparr>) limits
     = getDepthStencilSampleCounts fu cd limits"
  "getSampledSampleCounts fu (cd\<lparr>usageFlags := u\<rparr>) limits
     = getSampledSampleCounts fu cd limits"
  by (simp_all add: getColorSampleCounts_def getDepthStencilSampleCounts_def
      getSampledSampleCounts_def)

lemma checkUsageFlags_passed_gate:
  assumes "optimalTilingFeatures (getPhysicalDeviceFormatProperties ctx (format cd))
             AND (VK_FORMAT_FEATURE_COLOR_ATTACHMENT_BIT
                  OR VK_FORMAT_FEATURE_DEPTH_STENCIL_ATTACHMENT_BIT) \<noteq> 0"
      and "getPhysicalDeviceImageFormatProperties ctx (format cd) (imageType cd) (imageTiling cd)
             (usageFlags cd) 0 = (VK_SUCCESS, props)"
      and "getPhysicalDeviceProperties2 ctx = (limits, p12)"
  shows "checkUsageFlags fu ctx cd
           = isSuperset (sampleCounts props) (expectedFlags fu cd limits p12)"
  using assms by (simp add: checkUsageFlags_def Let_def)

lemma example_bits:
  "VK_IMAGE_USAGE_COLOR_ATTACHMENT_BIT = 0x10"
  "VK_IMAGE_USAGE_DEPTH_STENCIL_ATTACHMENT_BIT = 0x20"
  "VK_IMAGE_USAGE_SAMPLED_BIT = 0x4"
  "VK_IMAGE_USAGE_STORAGE_BIT = 0x8"
  "VK_SAMPLE_COUNT_1_BIT = 0x1"
  "VK_FORMAT_FEATURE_COLOR_ATTACHMENT_BIT = 0x80"
  "VK_FORMAT_FEATURE_DEPTH_STENCIL_ATTACHMENT_BIT = 0x200"
  by (simp_all add: VK_IMAGE_USAGE_COLOR_ATTACHMENT_BIT_def
      VK_IMAGE_USAGE_DEPTH_STENCIL_ATTACHMENT_BIT_def VK_IMAGE_USAGE_SAMPLED_BIT_def
      VK_IMAGE_USAGE_STORAGE_BIT_def VK_SAMPLE_COUNT_1_BIT_def
      VK_FORMAT_FEATURE_COLOR_ATTACHMENT_BIT_def
      VK_FORMAT_FEATURE_DEPTH_STENCIL_ATTACHMENT_BIT_def)

text \<open>
  Claim C3. For a usage-flags case that passed the feature gate and whose query
  succeeded: the vector of expected supersets holds the per-usage results of exactly the
  usage bits that are set; with none of the four bits set the expected set is the
  single-sample set; with exactly one of them set it is that bit's per-usage result
  unchanged; with at least one set it is the bitwise intersection of all contributing
  results; it is the combinator of the specification; and the check passes exactly when
  the device-reported set is a superset of it.
\<close>

theorem checkUsageFlags_combine:
  assumes gate: "optimalTilingFeatures (getPhysicalDeviceFormatProperties ctx (format cd))
             AND (VK_FORMAT_FEATURE_COLOR_ATTACHMENT_BIT
                  OR VK_FORMAT_FEATURE_DEPTH_STENCIL_ATTACHMENT_BIT) \<noteq> 0"
      and query: "getPhysicalDeviceImageFormatProperties ctx (format cd) (imageType cd)
             (imageTiling cd) (usageFlags cd) 0 = (VK_SUCCESS, props)"
      and props2: "getPhysicalDeviceProperties2 ctx = (limits, p12)"
  shows "expectedSupersets fu cd limits p12
           = contributing (usageFlags cd) (perUsageResults fu cd limits p12)
         \<and> (usageFlags cd AND fourUsageBits = 0 \<longrightarrow>
              expectedFlags fu cd limits p12 = VK_SAMPLE_COUNT_1_BIT)
         \<and> (usageFlags cd AND fourUsageBits = VK_IMAGE_USAGE_COLOR_ATTACHMENT_BIT \<longrightarrow>
              expectedFlags fu cd limits p12 = getColorSampleCounts fu cd limits p12)
         \<and> (usageFlags cd AND fourUsageBits = VK_IMAGE_USAGE_DEPTH_STENCIL_ATTACHMENT_BIT \<longrightarrow>
              expectedFlags fu cd limits p12 = getDepthStencilSampleCounts fu cd limits)
         \<and> (usageFlags cd AND fourUsageBits = VK_IMAGE_USAGE_SAMPLED_BIT \<longrightarrow>
              expectedFlags fu cd limits p12 = getSampledSampleCounts fu cd limits)
         \<and> (usageFlags cd AND fourUsageBits = VK_IMAGE_USAGE_STORAGE_BIT \<longrightarrow>
              expectedFlags fu cd limits p12 = getStorageSampleCounts limits)
         \<and> (usageFlags cd AND fourUsageBits \<noteq> 0 \<longrightarrow>
              expectedFlags fu cd limits p12
                = foldr (AND) (contributing (usageFlags cd) (perUsageResults fu cd limits p12))
                    (- 1))
         \<and> expectedFlags fu cd limits p12
             = combine (usageFlags cd) (perUsageResults fu cd limits p12)
         \<and> checkUsageFlags fu ctx cd
             = isSuperset (sampleCounts props)
                 (combine (usageFlags cd) (perUsageResults fu cd limits p12))"
proof -
  have bits: "usageFlags cd AND b = (usageFlags cd AND fourUsageBits) AND b"
    if "fourUsageBits AND b = b" for b
    using that by (simp add: and.assoc)
  have each:
    "usageFlags cd AND VK_IMAGE_USAGE_COLOR_ATTACHMENT_BIT
       = (usageFlags cd AND fourUsageBits) AND VK_IMAGE_USAGE_COLOR_ATTACHMENT_BIT"
    "usageFlags cd AND VK_IMAGE_USAGE_DEPTH_STENCIL_ATTACHMENT_BIT
       = (usageFlags cd AND fourUsageBits) AND VK_IMAGE_USAGE_DEPTH_STENCIL_ATTACHMENT_BIT"
    "usageFlags cd AND VK_IMAGE_USAGE_SAMPLED_BIT
       = (usageFlags cd AND fourUsageBits) AND VK_IMAGE_USAGE_SAMPLED_BIT"
    "usageFlags cd AND VK_IMAGE_USAGE_STORAGE_BIT
       = (usageFlags cd AND fourUsageBits) AND VK_IMAGE_USAGE_STORAGE_BIT"
    by (rule bits, simp add: fourUsageBits_def example_bits)+
  have a: "expectedSupersets fu cd limits p12
           = contributing (usageFlags cd) (perUsageResults fu cd limits p12)"
    by (rule expectedSupersets_contributing)
  have b: "usageFlags cd AND fourUsageBits = 0 \<longrightarrow>
              expectedFlags fu cd limits p12 = VK_SAMPLE_COUNT_1_BIT"
    by (simp add: expectedFlags_foldr expectedSupersets_empty_iff)
  have c1: "usageFlags cd AND fourUsageBits = VK_IMAGE_USAGE_COLOR_ATTACHMENT_BIT \<longrightarrow>
              expectedFlags fu cd limits p12 = getColorSampleCounts fu cd limits p12"
  proof
    assume h: "usageFlags cd AND fourUsageBits = VK_IMAGE_USAGE_COLOR_ATTACHMENT_BIT"
    have "expectedSupersets fu cd limits p12 = [getColorSampleCounts fu cd limits p12]"
      unfolding expectedSupersets_def each h by (simp add: example_bits)
    then show "expectedFlags fu cd limits p12 = getColorSampleCounts fu cd limits p12"
      by (simp add: expectedFlags_foldr)
  qed
  have c2: "usageFlags cd AND fourUsageBits = VK_IMAGE_USAGE_DEPTH_STENCIL_ATTACHMENT_BIT \<longrightarrow>
              expectedFlags fu cd limits p12 = getDepthStencilSampleCounts fu cd limits"
  proof
    assume h: "usageFlags cd AND fourUsageBits = VK_IMAGE_USAGE_DEPTH_STENCIL_ATTACHMENT_BIT"
    have "expectedSupersets fu cd limits p12 = [getDepthStencilSampleCounts fu cd limits]"
      unfolding expectedSupersets_def each h by (simp add: example_bits)
    then show "expectedFlags fu cd limits p12 = getDepthStencilSampleCounts fu cd limits"
      by (simp add: expectedFlags_foldr)
  qed
  have c3: "usageFlags cd AND fourUsageBits = VK_IMAGE_USAGE_SAMPLED_BIT \<longrightarrow>
              expectedFlags fu cd limits p12 = getSampledSampleCounts fu cd limits"
  proof
    assume h: "usageFlags cd AND fourUsageBits = VK_IMAGE_USAGE_SAMPLED_BIT"
    have "expectedSupersets fu cd limits p12 = [getSampledSampleCounts fu cd limits]"
      unfolding expectedSupersets_def each h by (simp add: example_bits)
    then show "expectedFlags fu cd limits p12 = getSampledSampleCounts fu cd limits"
      by (simp add: expectedFlags_foldr)
  qed
  have c4: "usageFlags cd AND fourUsageBits = VK_IMAGE_USAGE_STORAGE_BIT \<longrightarrow>
              expectedFlags fu cd limits p12 = getStorageSampleCounts limits"
  proof
    assume h: "usageFlags cd AND fourUsageBits = VK_IMAGE_USAGE_STORAGE_BIT"
    have "expectedSupersets fu cd limits p12 = [getStorageSampleCounts limits]"
      unfolding expectedSupersets_def each h by (simp add: example_bits)
    then show "expectedFlags fu cd limits p12 = getStorageSampleCounts limits"
      by (simp add: expectedFlags_foldr)
  qed
  have d: "usageFlags cd AND fourUsageBits \<noteq> 0 \<longrightarrow>
              expectedFlags fu cd limits p12
                = foldr (AND) (contributing (usageFlags cd) (perUsageResults fu cd limits p12))
                    (- 1)"
    by (simp add: expectedFlags_foldr expectedSupersets_empty_iff
        expectedSupersets_contributing [symmetric])
  have e: "expectedFlags fu cd limits p12
             = combine (usageFlags cd) (perUsageResults fu cd limits p12)"
    by (rule expectedFlags_combine)
  have "checkUsageFlags fu ctx cd
          = isSuperset (sampleCounts props) (expectedFlags fu cd limits p12)"
    using gate query props2 by (rule checkUsageFlags_passed_gate)
  then have f: "checkUsageFlags fu ctx cd
             = isSuperset (sampleCounts props)
                 (combine (usageFlags cd) (perUsageResults fu cd limits p12))"
    by (simp only: e)
  from a b c1 c2 c3 c4 d e f show ?thesis by blast
qed

theorem checkUsageFlags_combine_witness:
  "expectedFlags exampleFormats
       (exampleCase 37 (VK_IMAGE_USAGE_COLOR_ATTACHMENT_BIT OR VK_IMAGE_USAGE_SAMPLED_BIT))
       exampleLimits exampleProperties12 = 0x7
   \<and> checkUsageFlags exampleFormats (exampleContext 0x80 0x7)
       (exampleCase 37 (VK_IMAGE_USAGE_COLOR_ATTACHMENT_BIT OR VK_IMAGE_USAGE_SAMPLED_BIT))
   \<and> \<not> checkUsageFlags exampleFormats (exampleContext 0x80 0x3)
       (exampleCase 37 (VK_IMAGE_USAGE_COLOR_ATTACHMENT_BIT OR VK_IMAGE_USAGE_SAMPLED_BIT))"
  using checkUsageFlags_combine [of "exampleContext 0x80 0x7"
      "exampleCase 37 (VK_IMAGE_USAGE_COLOR_ATTACHMENT_BIT OR VK_IMAGE_USAGE_SAMPLED_BIT)"
      "\<lparr> sampleCounts = 0x7 \<rparr>" exampleLimits exampleProperties12 exampleFormats]
    checkUsageFlags_combine [of "exampleContext 0x80 0x3"
      "exampleCase 37 (VK_IMAGE_USAGE_COLOR_ATTACHMENT_BIT OR VK_IMAGE_USAGE_SAMPLED_BIT)"
      "\<lparr> sampleCounts = 0x3 \<rparr>" exampleLimits exampleProperties12 exampleFormats]
  by (simp add: exampleContext_def exampleCase_def example_bits fourUsageBits_def combine_def
      contributing_def perUsageResults_def getColorSampleCounts_def getSampledSampleCounts_def
      exampleFormats_def exampleLimits_def isSuperset_def)

text \<open>
  Claim C9 as stated fails at the empty usage set. With no usage bit the expected set is
  the single-sample set; adding the storage bit makes it the storage limit of the
  device, here the sets of 1, 2 and 4 samples, which is not a subset of it.
\<close>

theorem expectedFlags_not_monotone_from_empty_usage:
  "(0 :: VkImageUsageFlags) AND VK_IMAGE_USAGE_STORAGE_BIT = 0
   \<and> \<not> isSuperset
         (expectedFlags exampleFormats (exampleCase 37 0) exampleLimits exampleProperties12)
         (expectedFlags exampleFormats (exampleCase 37 VK_IMAGE_USAGE_STORAGE_BIT)
            exampleLimits exampleProperties12)"
  by (simp add: expectedFlags_def expectedSupersets_def exampleCase_def isSuperset_def
      example_bits getStorageSampleCounts_def exampleLimits_def)

text \<open>
  Claim C9, amended. For a fixed format and device and usage sets \<open>U\<close> and \<open>V\<close>
  with \<open>U\<close> contained in \<open>V\<close>, where \<open>U\<close> holds at least one of the four usage
  bits, the expected set for \<open>V\<close> is a subset of the expected set for \<open>U\<close>.
\<close>

theorem expectedFlags_antimono:
  assumes sub: "U AND V = U"
      and ne: "U AND fourUsageBits \<noteq> 0"
  shows "isSuperset (expectedFlags fu (cd\<lparr>usageFlags := U\<rparr>) limits p12)
                    (expectedFlags fu (cd\<lparr>usageFlags := V\<rparr>) limits p12)"
proof -
  have neV: "V AND fourUsageBits \<noteq> 0"
    using sub ne by (rule usage_bit_mono)
  have eU: "expectedFlags fu (cd\<lparr>usageFlags := U\<rparr>) limits p12
      = foldr (AND) (expectedSupersets fu (cd\<lparr>usageFlags := U\<rparr>) limits p12) (- 1)"
    using ne by (simp add: expectedFlags_foldr expectedSupersets_empty_iff)
  have eV: "expectedFlags fu (cd\<lparr>usageFlags := V\<rparr>) limits p12
      = foldr (AND) (expectedSupersets fu (cd\<lparr>usageFlags := V\<rparr>) limits p12) (- 1)"
    using neV by (simp add: expectedFlags_foldr expectedSupersets_empty_iff)
  show ?thesis
    unfolding eU eV foldr_expectedSupersets rules_ignore_usage
    by (simp add: isSuperset_and pick_mono [OF sub])
qed

theorem expectedFlags_antimono_witness:
  "isSuperset
     (expectedFlags exampleFormats (exampleCase 37 VK_IMAGE_USAGE_COLOR_ATTACHMENT_BIT)
        exampleLimits exampleProperties12)
     (expectedFlags exampleFormats
        (exampleCase 37 (VK_IMAGE_USAGE_COLOR_ATTACHMENT_BIT OR VK_IMAGE_USAGE_STORAGE_BIT))
        exampleLimits exampleProperties12)"
  using expectedFlags_antimono [of VK_IMAGE_USAGE_COLOR_ATTACHMENT_BIT
      "VK_IMAGE_USAGE_COLOR_ATTACHMENT_BIT OR VK_IMAGE_USAGE_STORAGE_BIT"
      exampleFormats "exampleCase 37 0" exampleLimits exampleProperties12]
  by (simp add: exampleCase_def example_bits fourUsageBits_def)

text \<open>
  Claim C10. A per-usage result of 0 is an entry of the vector like any other. For a
  usage-flags case whose optimal-tiling features hold an attachment bit and whose query
  succeeded, if a usage bit is set whose rule yields 0, then 0 is among the expected
  supersets, the expected set is 0, and the check passes whatever sample-count set the
  device reported.
\<close>

theorem checkUsageFlags_zero_result:
  assumes gate: "optimalTilingFeatures (getPhysicalDeviceFormatProperties ctx (format cd))
             AND (VK_FORMAT_FEATURE_COLOR_ATTACHMENT_BIT
                  OR VK_FORMAT_FEATURE_DEPTH_STENCIL_ATTACHMENT_BIT) \<noteq> 0"
      and query: "getPhysicalDeviceImageFormatProperties ctx (format cd) (imageType cd)
             (imageTiling cd) (usageFlags cd) 0 = (VK_SUCCESS, props)"
      and props2: "getPhysicalDeviceProperties2 ctx = (limits, p12)"
      and zero: "usageFlags cd AND VK_IMAGE_USAGE_COLOR_ATTACHMENT_BIT \<noteq> 0
                   \<and> getColorSampleCounts fu cd limits p12 = 0
                 \<or> usageFlags cd AND VK_IMAGE_USAGE_DEPTH_STENCIL_ATTACHMENT_BIT \<noteq> 0
                   \<and> getDepthStencilSampleCounts fu cd limits = 0
                 \<or> usageFlags cd AND VK_IMAGE_USAGE_SAMPLED_BIT \<noteq> 0
                   \<and> getSampledSampleCounts fu cd limits = 0
                 \<or> usageFlags cd AND VK_IMAGE_USAGE_STORAGE_BIT \<noteq> 0
                   \<and> getStorageSampleCounts limits = 0"
  shows "0 \<in> set (expectedSupersets fu cd limits p12)
         \<and> expectedFlags fu cd limits p12 = 0
         \<and> checkUsageFlags fu ctx cd"
proof -
  have mem: "0 \<in> set (expectedSupersets fu cd limits p12)"
    using zero by (auto simp add: expectedSupersets_def)
  then have ne: "expectedSupersets fu cd limits p12 \<noteq> []" by auto
  have exp: "expectedFlags fu cd limits p12 = 0"
    using ne foldr_and_zero [OF mem] by (simp add: expectedFlags_foldr)
  have "checkUsageFlags fu ctx cd
          = isSuperset (sampleCounts props) (expectedFlags fu cd limits p12)"
    using gate query props2 by (rule checkUsageFlags_passed_gate)
  then have "checkUsageFlags fu ctx cd" by (simp add: exp isSuperset_zero)
  with mem exp show ?thesis by simp
qed

theorem checkUsageFlags_zero_result_witness:
  "expectedFlags exampleFormats
       (exampleCase 131 (VK_IMAGE_USAGE_COLOR_ATTACHMENT_BIT OR VK_IMAGE_USAGE_STORAGE_BIT))
       exampleLimits exampleProperties12 = 0
   \<and> checkUsageFlags exampleFormats (exampleContext 0x80 0x1)
       (exampleCase 131 (VK_IMAGE_USAGE_COLOR_ATTACHMENT_BIT OR VK_IMAGE_USAGE_STORAGE_BIT))"
  using checkUsageFlags_zero_result [of "exampleContext 0x80 0x1"
      "exampleCase 131 (VK_IMAGE_USAGE_COLOR_ATTACHMENT_BIT OR VK_IMAGE_USAGE_STORAGE_BIT)"
      "\<lparr> sampleCounts = 0x1 \<rparr>" exampleLimits exampleProperties12 exampleFormats]
  by (simp add: exampleContext_def exampleCase_def example_bits getColorSampleCounts_def
      exampleFormats_def)

section \<open>Properties of the case enumerator\<close>

lemma upt16: "[0..<16] = [0,1,2,3,4,5,6,7,8,9,10,11,12,13,14,15::nat]"
  by (simp add: upt_rec)

lemma combinationUsage_values:
  "map (\<lambda>c. combinationUsage (of_nat c)) [0..<16] =
     map (\<lambda>(color, depth, sampled, storage). usageOfSubset color depth sampled storage) usageSubsets"
  by (simp add: upt16 combinationUsage_def usageFlagBits_def usageOfSubset_def usageSubsets_def upt_rec
      example_bits)

lemma usageSubsets_list:
  "usageSubsets =
    [(False, False, False, False), (True, False, False, False),
     (False, True, False, False), (True, True, False, False),
     (False, False, True, False), (True, False, True, False),
     (False, True, True, False), (True, True, True, False),
     (False, False, False, True), (True, False, False, True),
     (False, True, False, True), (True, True, False, True),
     (False, False, True, True), (True, False, True, True),
     (False, True, True, True), (True, True, True, True)]"
  by (simp add: usageSubsets_def)

lemma usageSubsets_all: "set usageSubsets = UNIV"
proof -
  have "(c, d, sa, st) \<in> set usageSubsets" for c d sa st
    by (cases c; cases d; cases sa; cases st; simp add: usageSubsets_list)
  then show ?thesis by auto
qed

lemma usageSubsets_distinct: "distinct usageSubsets \<and> length usageSubsets = 16"
  by (simp add: usageSubsets_list)

lemma usageOfSubset_values:
  "map (\<lambda>(color, depth, sampled, storage). usageOfSubset color depth sampled storage) usageSubsets
    = [0x00, 0x10, 0x20, 0x30, 0x04, 0x14, 0x24, 0x34, 0x08, 0x18, 0x28, 0x38, 0x0C, 0x1C, 0x2C, 0x3C]"
  by (simp add: usageSubsets_list usageOfSubset_def example_bits)

lemma usageOfSubset_distinct:
  "distinct (map (\<lambda>(color, depth, sampled, storage). usageOfSubset color depth sampled storage) usageSubsets)"
  unfolding usageOfSubset_values by simp

lemma usageOfSubset_bits:
  "(usageOfSubset c d sa st AND VK_IMAGE_USAGE_COLOR_ATTACHMENT_BIT \<noteq> 0) = c"
  "(usageOfSubset c d sa st AND VK_IMAGE_USAGE_DEPTH_STENCIL_ATTACHMENT_BIT \<noteq> 0) = d"
  "(usageOfSubset c d sa st AND VK_IMAGE_USAGE_SAMPLED_BIT \<noteq> 0) = sa"
  "(usageOfSubset c d sa st AND VK_IMAGE_USAGE_STORAGE_BIT \<noteq> 0) = st"
  by (cases c; cases d; cases sa; cases st; simp add: usageOfSubset_def example_bits)+

lemma usageCaseName_subset:
  "usageCaseName s (usageOfSubset c d sa st) = s @ ''_USAGE_FLAGS'' @ mnemonicsOfSubset c d sa st"
  unfolding usageCaseName_def mnemonicsOfSubset_def
  by (simp only: usageOfSubset_bits append_assoc)

lemma addUsageFlagsSubtests_subsets:
  "addUsageFlagsSubtests formatStr caseDef = map (usageCase formatStr caseDef) usageSubsets"
proof -
  have len: "(2::nat) ^ length usageFlagBits = 16"
    by (simp add: usageFlagBits_def)
  have "addUsageFlagsSubtests formatStr caseDef
      = map (\<lambda>usage. SampleCountTest (usageCaseName formatStr usage) []
               (caseDef\<lparr>usageFlags := usage\<rparr>) USAGE_FLAGS_SUBTEST)
          (map (\<lambda>c. combinationUsage (of_nat c)) [0..<16])"
    unfolding addUsageFlagsSubtests_def len by (simp add: Let_def)
  also have "\<dots> = map (usageCase formatStr caseDef) usageSubsets"
    unfolding combinationUsage_values
    by (simp add: usageCase_def usageCaseName_subset split_def)
  finally show ?thesis .
qed

lemma formatsOfRange_upto:
  "second < VK_FORMAT_MAX_ENUM \<Longrightarrow> formatsOfRange first second = Some [first..second]"
proof (induction first second rule: formatsOfRange.induct)
  case (1 fmt second)
  show ?case
  proof (cases "fmt \<le> second")
    case True
    then have ne: "fmt \<noteq> VK_FORMAT_MAX_ENUM" using "1.prems" by simp
    have "formatsOfRange (fmt + 1) second = Some [fmt + 1..second]"
      using True ne "1.prems" by (rule "1.IH")
    then have "formatsOfRange fmt second = Some (fmt # [fmt + 1..second])"
      using True ne by (subst formatsOfRange.simps) simp
    then show ?thesis using True by (simp add: upto_rec1)
  next
    case False
    then show ?thesis by (subst formatsOfRange.simps) simp
  qed
qed

lemma appendRanges_upto:
  "list_all (\<lambda>(first, second). second < VK_FORMAT_MAX_ENUM) ranges \<Longrightarrow>
   appendRanges ranges formats = Some (formats @ concat (map (\<lambda>(first, second). [first..second]) ranges))"
proof (induction ranges arbitrary: formats)
  case Nil
  show ?case by simp
next
  case (Cons rng ranges)
  obtain first second where rng: "rng = (first, second)" by (cases rng)
  have "second < VK_FORMAT_MAX_ENUM" using Cons.prems rng by simp
  then have "formatsOfRange first second = Some [first..second]" by (rule formatsOfRange_upto)
  moreover have "appendRanges ranges (formats @ [first..second])
      = Some ((formats @ [first..second]) @ concat (map (\<lambda>(first, second). [first..second]) ranges))"
    using Cons.prems by (intro Cons.IH) simp
  ultimately show ?case by (simp add: rng)
qed

lemma enumerateAllFormatsToTest_universe:
  assumes "boundsBelowMax vk"
  shows "enumerateAllFormatsToTest vk = Some (formatUniverse vk)"
proof -
  have "list_all (\<lambda>(first, second). second < VK_FORMAT_MAX_ENUM) (allFormatsRanges vk)"
    using assms by (simp add: boundsBelowMax_def allFormatsRanges_def)
  then have "appendRanges (allFormatsRanges vk) []
      = Some ([] @ concat (map (\<lambda>(first, second). [first..second]) (allFormatsRanges vk)))"
    by (rule appendRanges_upto)
  then show ?thesis
    by (simp add: enumerateAllFormatsToTest_def allFormatsRanges_def formatUniverse_def)
qed

lemma testCases_leaves:
  "\<forall>t \<in> set ts. \<exists>name description caseDef subtest. t = SampleCountTest name description caseDef subtest \<Longrightarrow>
   concat (map (testCases path) ts) = map (Pair path) ts"
  by (induction ts) auto

lemma formatCases_leaves:
  "t \<in> set (formatCases fu iu imgType tiling f) \<Longrightarrow>
   \<exists>name description caseDef subtest. t = SampleCountTest name description caseDef subtest"
  by (auto simp add: formatCases_def Let_def addUsageFlagsSubtests_def split: if_splits)

lemma enumeratedCases_grid:
  assumes "enumerateAllFormatsToTest vk = Some formats"
  shows "enumeratedCases fu iu vk =
    concat (map (\<lambda>imgType. concat (map (\<lambda>tiling.
      map (Pair [''sample_counts'', getImageTypeName iu imgType, getImageTilingName iu tiling])
        (concat (map (formatCases fu iu imgType tiling) formats)))
      imageTilings)) imageTypes)"
proof -
  have leaf: "concat (map (testCases path) (concat (map (formatCases fu iu imgType tiling) formats)))
      = map (Pair path) (concat (map (formatCases fu iu imgType tiling) formats))" for path imgType tiling
    by (rule testCases_leaves) (auto dest: formatCases_leaves)
  show ?thesis
    unfolding enumeratedCases_def createImageSampleCountsTests_def
    by (simp add: assms imageTypes_def imageTilings_def leaf)
qed

lemma formatCases_explicit:
  "formatCases fu iu imgType tiling f =
     (if mapImageType iu imgType = VK_IMAGE_TYPE_2D \<and> tiling = VK_IMAGE_TILING_OPTIMAL
      then
        [SampleCountTest (getFormatShortString fu f @ ''_CUBE_COMPATIBLE_SUBTEST'') []
           \<lparr> format = f, imageType = mapImageType iu imgType, imageTiling = tiling,
             usageFlags = 0 \<rparr> CUBE_COMPATIBLE_SUBTEST,
         SampleCountTest (getFormatShortString fu f @ ''_OPTIMAL_TILING_FEATURES_SUBTEST'') []
           \<lparr> format = f, imageType = mapImageType iu imgType, imageTiling = tiling,
             usageFlags = 0 \<rparr> OPTIMAL_TILING_FEATURES_SUBTEST]
        @ (if isYCbCrFormat fu f
           then [SampleCountTest (getFormatShortString fu f @ ''_YCBCR_CONVERSION_SUBTEST'') []
                   \<lparr> format = f, imageType = mapImageType iu imgType,
                     imageTiling = tiling, usageFlags = 0 \<rparr>
                   YCBCR_CONVERSION_SUBTEST]
           else [])
        @ map (usageCase (getFormatShortString fu f)
                 \<lparr> format = f, imageType = mapImageType iu imgType,
                   imageTiling = tiling, usageFlags = 0 \<rparr>) usageSubsets
        @ [SampleCountTest (getFormatShortString fu f @ ''_ONE_SAMPLE_COUNT_PRESENT_SUBTEST'') []
             \<lparr> format = f, imageType = mapImageType iu imgType, imageTiling = tiling,
               usageFlags = 0 \<rparr> ONE_SAMPLE_COUNT_PRESENT_SUBTEST]
      else
        [SampleCountTest
           (getFormatShortString fu f @ ''_LINEAR_TILING_AND_NOT_2D_IMAGE_TYPE_SUBTEST'') []
           \<lparr> format = f, imageType = mapImageType iu imgType, imageTiling = tiling,
             usageFlags = 0 \<rparr> LINEAR_TILING_AND_NOT_2D_IMAGE_TYPE])"
  unfolding formatCases_def Let_def addUsageFlagsSubtests_subsets
  by simp

lemma enumeratedCases_cells:
  assumes "enumerateAllFormatsToTest vk = Some formats"
  shows "enumeratedCases fu iu vk =
      map (Pair [''sample_counts'', getImageTypeName iu IMAGE_TYPE_1D,
                 getImageTilingName iu VK_IMAGE_TILING_OPTIMAL])
        (concat (map (formatCases fu iu IMAGE_TYPE_1D VK_IMAGE_TILING_OPTIMAL) formats))
      @ map (Pair [''sample_counts'', getImageTypeName iu IMAGE_TYPE_1D,
                   getImageTilingName iu VK_IMAGE_TILING_LINEAR])
          (concat (map (formatCases fu iu IMAGE_TYPE_1D VK_IMAGE_TILING_LINEAR) formats))
      @ map (Pair [''sample_counts'', getImageTypeName iu IMAGE_TYPE_2D,
                   getImageTilingName iu VK_IMAGE_TILING_OPTIMAL])
          (concat (map (formatCases fu iu IMAGE_TYPE_2D VK_IMAGE_TILING_OPTIMAL) formats))
      @ map (Pair [''sample_counts'', getImageTypeName iu IMAGE_TYPE_2D,
                   getImageTilingName iu VK_IMAGE_TILING_LINEAR])
          (concat (map (formatCases fu iu IMAGE_TYPE_2D VK_IMAGE_TILING_LINEAR) formats))
      @ map (Pair [''sample_counts'', getImageTypeName iu IMAGE_TYPE_3D,
                   getImageTilingName iu VK_IMAGE_TILING_OPTIMAL])
          (concat (map (formatCases fu iu IMAGE_TYPE_3D VK_IMAGE_TILING_OPTIMAL) formats))
      @ map (Pair [''sample_counts'', getImageTypeName iu IMAGE_TYPE_3D,
                   getImageTilingName iu VK_IMAGE_TILING_LINEAR])
          (concat (map (formatCases fu iu IMAGE_TYPE_3D VK_IMAGE_TILING_LINEAR) formats))"
  unfolding enumeratedCases_grid [OF assms] imageTypes_def imageTilings_def
  by (simp only: list.map concat.simps append_Nil2 append_assoc)

lemma count_list_upto: "count_list [a..b] k = (if a \<le> k \<and> k \<le> b then 1 else 0)"
proof (induction a b rule: upto.induct)
  case (1 i j)
  show ?case
  proof (cases "i \<le> j")
    case True
    then have "count_list [i..j] k = (if i = k then 1 else 0) + count_list [i + 1..j] k"
      by (simp add: upto_rec1)
    then show ?thesis using True "1.IH" [OF True] by auto
  next
    case False
    then show ?thesis by simp
  qed
qed

lemma sum_list_cases_count:
  "sum_list (map (\<lambda>f. n + (if f = k then 1 else 0)) fs) = n * length fs + count_list fs k"
  by (induction fs) auto

lemma boundsBelowMax_vulkan: "boundsBelowMax vulkanFormatBounds"
  by (simp add: boundsBelowMax_def vulkanFormatBounds_def VK_FORMAT_MAX_ENUM_def)

lemma formatUniverse_vulkan:
  "formatUniverse vulkanFormatBounds =
     [1..184] @ [1000156000..1000156033] @ [1000330000..1000330003]
     @ [1000340000..1000340001] @ [1000066000..1000066013] @ [1000054000..1000054007]"
  by (simp add: formatUniverse_def vulkanFormatBounds_def del: upto_rec_numeral)

lemma formatUniverse_vulkan_counts:
  "length (formatUniverse vulkanFormatBounds) = 246"
  "count_list (formatUniverse vulkanFormatBounds) 1000156002 = 1"
  "1 \<in> set (formatUniverse vulkanFormatBounds)"
  unfolding formatUniverse_vulkan
  by (simp_all add: count_list_upto del: upto_rec_numeral)

lemma vulkan_formats:
  "enumerateAllFormatsToTest vulkanFormatBounds =
     Some ([1..184] @ [1000156000..1000156033] @ [1000330000..1000330003]
           @ [1000340000..1000340001] @ [1000066000..1000066013] @ [1000054000..1000054007])"
  by (simp only: enumerateAllFormatsToTest_universe [OF boundsBelowMax_vulkan]
      formatUniverse_vulkan)

text \<open>
  Claim C7. When the upper bound of each of the six ranges lies below the largest format
  value: the loop over a range visits every format identifier from its first to its second
  bound inclusive, and the formats to test are the six ranges in order. The enumerated
  cases are six cells in this order: 1D optimal, 1D linear, 2D optimal, 2D linear,
  3D optimal, 3D linear; each cell holds, for every format of the six ranges in turn, the
  cases of \<open>formatCases\<close> under the groups of the image type and the tiling. For a
  2D image type with optimal tiling \<open>formatCases\<close> emits the cube-compatible case, the
  optimal-tiling-features case, the YCbCr-conversion case exactly when the format is a
  YCbCr format, one usage-flags case for each of the sixteen subsets of the four usage
  bits, named by the mnemonics of its flags in the order COLOR, DEPTH, SAMPLED, STORAGE,
  and the one-sample-count-present case; for every other type and tiling it emits the
  linear-tiling-or-not-2D case alone.
\<close>

theorem createImageSampleCountsTests_grid:
  assumes "boundsBelowMax vk"
  shows "(\<forall>first second. second < VK_FORMAT_MAX_ENUM \<longrightarrow>
            formatsOfRange first second = Some [first..second]
            \<and> set [first..second] = {first..second})
    \<and> enumerateAllFormatsToTest vk = Some (formatUniverse vk)
    \<and> enumeratedCases fu iu vk =
        map (Pair [''sample_counts'', getImageTypeName iu IMAGE_TYPE_1D,
                   getImageTilingName iu VK_IMAGE_TILING_OPTIMAL])
          (concat (map (formatCases fu iu IMAGE_TYPE_1D VK_IMAGE_TILING_OPTIMAL)
             (formatUniverse vk)))
        @ map (Pair [''sample_counts'', getImageTypeName iu IMAGE_TYPE_1D,
                     getImageTilingName iu VK_IMAGE_TILING_LINEAR])
            (concat (map (formatCases fu iu IMAGE_TYPE_1D VK_IMAGE_TILING_LINEAR)
               (formatUniverse vk)))
        @ map (Pair [''sample_counts'', getImageTypeName iu IMAGE_TYPE_2D,
                     getImageTilingName iu VK_IMAGE_TILING_OPTIMAL])
            (concat (map (formatCases fu iu IMAGE_TYPE_2D VK_IMAGE_TILING_OPTIMAL)
               (formatUniverse vk)))
        @ map (Pair [''sample_counts'', getImageTypeName iu IMAGE_TYPE_2D,
                     getImageTilingName iu VK_IMAGE_TILING_LINEAR])
            (concat (map (formatCases fu iu IMAGE_TYPE_2D VK_IMAGE_TILING_LINEAR)
               (formatUniverse vk)))
        @ map (Pair [''sample_counts'', getImageTypeName iu IMAGE_TYPE_3D,
                     getImageTilingName iu VK_IMAGE_TILING_OPTIMAL])
            (concat (map (formatCases fu iu IMAGE_TYPE_3D VK_IMAGE_TILING_OPTIMAL)
               (formatUniverse vk)))
        @ map (Pair [''sample_counts'', getImageTypeName iu IMAGE_TYPE_3D,
                     getImageTilingName iu VK_IMAGE_TILING_LINEAR])
            (concat (map (formatCases fu iu IMAGE_TYPE_3D VK_IMAGE_TILING_LINEAR)
               (formatUniverse vk)))
    \<and> (\<forall>imgType tiling f. formatCases fu iu imgType tiling f =
     (if mapImageType iu imgType = VK_IMAGE_TYPE_2D \<and> tiling = VK_IMAGE_TILING_OPTIMAL
      then
        [SampleCountTest (getFormatShortString fu f @ ''_CUBE_COMPATIBLE_SUBTEST'') []
           \<lparr> format = f, imageType = mapImageType iu imgType, imageTiling = tiling,
             usageFlags = 0 \<rparr> CUBE_COMPATIBLE_SUBTEST,
         SampleCountTest (getFormatShortString fu f @ ''_OPTIMAL_TILING_FEATURES_SUBTEST'') []
           \<lparr> format = f, imageType = mapImageType iu imgType, imageTiling = tiling,
             usageFlags = 0 \<rparr> OPTIMAL_TILING_FEATURES_SUBTEST]
        @ (if isYCbCrFormat fu f
           then [SampleCountTest (getFormatShortString fu f @ ''_YCBCR_CONVERSION_SUBTEST'') []
                   \<lparr> format = f, imageType = mapImageType iu imgType,
                     imageTiling = tiling, usageFlags = 0 \<rparr>
                   YCBCR_CONVERSION_SUBTEST]
           else [])
        @ map (usageCase (getFormatShortString fu f)
                 \<lparr> format = f, imageType = mapImageType iu imgType,
                   imageTiling = tiling, usageFlags = 0 \<rparr>) usageSubsets
        @ [SampleCountTest (getFormatShortString fu f @ ''_ONE_SAMPLE_COUNT_PRESENT_SUBTEST'') []
             \<lparr> format = f, imageType = mapImageType iu imgType, imageTiling = tiling,
               usageFlags = 0 \<rparr> ONE_SAMPLE_COUNT_PRESENT_SUBTEST]
      else
        [SampleCountTest
           (getFormatShortString fu f @ ''_LINEAR_TILING_AND_NOT_2D_IMAGE_TYPE_SUBTEST'') []
           \<lparr> format = f, imageType = mapImageType iu imgType, imageTiling = tiling,
             usageFlags = 0 \<rparr> LINEAR_TILING_AND_NOT_2D_IMAGE_TYPE]))
    \<and> length usageSubsets = 16 \<and> distinct usageSubsets \<and> set usageSubsets = UNIV
    \<and> distinct (map (\<lambda>(color, depth, sampled, storage).
                       usageOfSubset color depth sampled storage) usageSubsets)"
proof -
  have b: "\<forall>first second. second < VK_FORMAT_MAX_ENUM \<longrightarrow>
            formatsOfRange first second = Some [first..second]
            \<and> set [first..second] = {first..second}"
    by (simp add: formatsOfRange_upto)
  have c: "enumerateAllFormatsToTest vk = Some (formatUniverse vk)"
    using assms by (rule enumerateAllFormatsToTest_universe)
  note d = enumeratedCases_cells [OF c, of fu iu]
  have e: "length usageSubsets = 16 \<and> distinct usageSubsets \<and> set usageSubsets = UNIV
    \<and> distinct (map (\<lambda>(color, depth, sampled, storage).
                       usageOfSubset color depth sampled storage) usageSubsets)"
    by (simp only: usageSubsets_distinct usageSubsets_all usageOfSubset_distinct simp_thms)
  show ?thesis
    apply (intro conjI)
           apply (rule b)
          apply (rule c)
         apply (rule d)
        apply (intro allI, rule formatCases_explicit)
       apply (simp_all only: e)
    done
qed

theorem createImageSampleCountsTests_grid_witness:
  "map_option length (enumerateAllFormatsToTest vulkanFormatBounds) = Some 246
   \<and> length (enumeratedCases exampleFormats exampleImageUtil vulkanFormatBounds) = 5905
   \<and> ([''sample_counts'', ''3d'', ''linear''],
        SampleCountTest ''x_LINEAR_TILING_AND_NOT_2D_IMAGE_TYPE_SUBTEST'' []
          \<lparr> format = 1, imageType = VK_IMAGE_TYPE_3D, imageTiling = VK_IMAGE_TILING_LINEAR,
            usageFlags = 0 \<rparr> LINEAR_TILING_AND_NOT_2D_IMAGE_TYPE)
       \<in> set (enumeratedCases exampleFormats exampleImageUtil vulkanFormatBounds)
   \<and> length (formatCases exampleFormats exampleImageUtil IMAGE_TYPE_2D
                VK_IMAGE_TILING_OPTIMAL 1) = 19
   \<and> length (formatCases exampleFormats exampleImageUtil IMAGE_TYPE_2D
                VK_IMAGE_TILING_OPTIMAL 1000156002) = 20"
proof -
  note grid = createImageSampleCountsTests_grid [OF boundsBelowMax_vulkan, of exampleFormats exampleImageUtil]
  let ?fs = "formatUniverse vulkanFormatBounds"
  have fmts: "enumerateAllFormatsToTest vulkanFormatBounds = Some ?fs"
    using grid by (elim conjE)
  have cells: "enumeratedCases exampleFormats exampleImageUtil vulkanFormatBounds =
        map (Pair [''sample_counts'', getImageTypeName exampleImageUtil IMAGE_TYPE_1D,
                   getImageTilingName exampleImageUtil VK_IMAGE_TILING_OPTIMAL])
          (concat (map (formatCases exampleFormats exampleImageUtil IMAGE_TYPE_1D
             VK_IMAGE_TILING_OPTIMAL) ?fs))
        @ map (Pair [''sample_counts'', getImageTypeName exampleImageUtil IMAGE_TYPE_1D,
                     getImageTilingName exampleImageUtil VK_IMAGE_TILING_LINEAR])
            (concat (map (formatCases exampleFormats exampleImageUtil IMAGE_TYPE_1D
               VK_IMAGE_TILING_LINEAR) ?fs))
        @ map (Pair [''sample_counts'', getImageTypeName exampleImageUtil IMAGE_TYPE_2D,
                     getImageTilingName exampleImageUtil VK_IMAGE_TILING_OPTIMAL])
            (concat (map (formatCases exampleFormats exampleImageUtil IMAGE_TYPE_2D
               VK_IMAGE_TILING_OPTIMAL) ?fs))
        @ map (Pair [''sample_counts'', getImageTypeName exampleImageUtil IMAGE_TYPE_2D,
                     getImageTilingName exampleImageUtil VK_IMAGE_TILING_LINEAR])
            (concat (map (formatCases exampleFormats exampleImageUtil IMAGE_TYPE_2D
               VK_IMAGE_TILING_LINEAR) ?fs))
        @ map (Pair [''sample_counts'', getImageTypeName exampleImageUtil IMAGE_TYPE_3D,
                     getImageTilingName exampleImageUtil VK_IMAGE_TILING_OPTIMAL])
            (concat (map (formatCases exampleFormats exampleImageUtil IMAGE_TYPE_3D
               VK_IMAGE_TILING_OPTIMAL) ?fs))
        @ map (Pair [''sample_counts'', getImageTypeName exampleImageUtil IMAGE_TYPE_3D,
                     getImageTilingName exampleImageUtil VK_IMAGE_TILING_LINEAR])
            (concat (map (formatCases exampleFormats exampleImageUtil IMAGE_TYPE_3D
               VK_IMAGE_TILING_LINEAR) ?fs))"
    using grid by (elim conjE)
  have cases: "formatCases exampleFormats exampleImageUtil imgType tiling f =
     (if mapImageType exampleImageUtil imgType = VK_IMAGE_TYPE_2D
         \<and> tiling = VK_IMAGE_TILING_OPTIMAL
      then
        [SampleCountTest (getFormatShortString exampleFormats f @ ''_CUBE_COMPATIBLE_SUBTEST'') []
           \<lparr> format = f, imageType = mapImageType exampleImageUtil imgType, imageTiling = tiling,
             usageFlags = 0 \<rparr> CUBE_COMPATIBLE_SUBTEST,
         SampleCountTest
           (getFormatShortString exampleFormats f @ ''_OPTIMAL_TILING_FEATURES_SUBTEST'') []
           \<lparr> format = f, imageType = mapImageType exampleImageUtil imgType, imageTiling = tiling,
             usageFlags = 0 \<rparr> OPTIMAL_TILING_FEATURES_SUBTEST]
        @ (if isYCbCrFormat exampleFormats f
           then [SampleCountTest
                   (getFormatShortString exampleFormats f @ ''_YCBCR_CONVERSION_SUBTEST'') []
                   \<lparr> format = f, imageType = mapImageType exampleImageUtil imgType,
                     imageTiling = tiling, usageFlags = 0 \<rparr>
                   YCBCR_CONVERSION_SUBTEST]
           else [])
        @ map (usageCase (getFormatShortString exampleFormats f)
                 \<lparr> format = f, imageType = mapImageType exampleImageUtil imgType,
                   imageTiling = tiling, usageFlags = 0 \<rparr>) usageSubsets
        @ [SampleCountTest
             (getFormatShortString exampleFormats f @ ''_ONE_SAMPLE_COUNT_PRESENT_SUBTEST'') []
             \<lparr> format = f, imageType = mapImageType exampleImageUtil imgType, imageTiling = tiling,
               usageFlags = 0 \<rparr> ONE_SAMPLE_COUNT_PRESENT_SUBTEST]
      else
        [SampleCountTest
           (getFormatShortString exampleFormats f
              @ ''_LINEAR_TILING_AND_NOT_2D_IMAGE_TYPE_SUBTEST'') []
           \<lparr> format = f, imageType = mapImageType exampleImageUtil imgType, imageTiling = tiling,
             usageFlags = 0 \<rparr> LINEAR_TILING_AND_NOT_2D_IMAGE_TYPE])" for imgType tiling f
    using grid by (elim conjE) (erule allE)+
  have len: "length usageSubsets = 16"
    using grid by (elim conjE)
  have ty: "mapImageType exampleImageUtil IMAGE_TYPE_1D = VK_IMAGE_TYPE_1D"
    "mapImageType exampleImageUtil IMAGE_TYPE_2D = VK_IMAGE_TYPE_2D"
    "mapImageType exampleImageUtil IMAGE_TYPE_3D = VK_IMAGE_TYPE_3D"
    by (simp_all add: exampleImageUtil_def)
  have name: "getFormatShortString exampleFormats 1 = ''x''"
    by (simp add: exampleFormats_def)
  have y: "isYCbCrFormat exampleFormats f = (f = 1000156002)" for f
    by (simp add: exampleFormats_def)
  have l2: "length (formatCases exampleFormats exampleImageUtil IMAGE_TYPE_2D
                VK_IMAGE_TILING_OPTIMAL f) = 19 + (if f = 1000156002 then 1 else 0)" for f
    by (simp add: cases ty y len)
  have l1: "length (formatCases exampleFormats exampleImageUtil IMAGE_TYPE_1D tiling f) = 1"
    "length (formatCases exampleFormats exampleImageUtil IMAGE_TYPE_3D tiling f) = 1"
    "length (formatCases exampleFormats exampleImageUtil IMAGE_TYPE_2D
               VK_IMAGE_TILING_LINEAR f) = 1" for tiling f
    by (simp_all add: cases ty)
  have a: "map_option length (enumerateAllFormatsToTest vulkanFormatBounds) = Some 246"
    by (simp add: fmts formatUniverse_vulkan_counts)
  have b: "length (enumeratedCases exampleFormats exampleImageUtil vulkanFormatBounds) = 5905"
    unfolding cells
    by (simp add: length_concat comp_def l1 l2 sum_list_cases_count sum_list_triv
        formatUniverse_vulkan_counts)
  have "SampleCountTest ''x_LINEAR_TILING_AND_NOT_2D_IMAGE_TYPE_SUBTEST'' []
          \<lparr> format = 1, imageType = VK_IMAGE_TYPE_3D, imageTiling = VK_IMAGE_TILING_LINEAR,
            usageFlags = 0 \<rparr> LINEAR_TILING_AND_NOT_2D_IMAGE_TYPE
        \<in> set (formatCases exampleFormats exampleImageUtil IMAGE_TYPE_3D VK_IMAGE_TILING_LINEAR 1)"
    by (simp add: cases ty name)
  then have c: "([''sample_counts'', ''3d'', ''linear''],
        SampleCountTest ''x_LINEAR_TILING_AND_NOT_2D_IMAGE_TYPE_SUBTEST'' []
          \<lparr> format = 1, imageType = VK_IMAGE_TYPE_3D, imageTiling = VK_IMAGE_TILING_LINEAR,
            usageFlags = 0 \<rparr> LINEAR_TILING_AND_NOT_2D_IMAGE_TYPE)
       \<in> set (enumeratedCases exampleFormats exampleImageUtil vulkanFormatBounds)"
    unfolding cells using formatUniverse_vulkan_counts(3)
    by (auto simp add: exampleImageUtil_def)
  have d: "length (formatCases exampleFormats exampleImageUtil IMAGE_TYPE_2D
                VK_IMAGE_TILING_OPTIMAL 1) = 19"
    "length (formatCases exampleFormats exampleImageUtil IMAGE_TYPE_2D
                VK_IMAGE_TILING_OPTIMAL 1000156002) = 20"
    by (simp_all add: l2)
  from a b c d show ?thesis by simp
qed

lemma caseTags_keys:
  "map fst caseTags =
    [''_CUBE_COMPATIBLE_SUBTEST'', ''_OPTIMAL_TILING_FEATURES_SUBTEST'', ''_YCBCR_CONVERSION_SUBTEST'',
     ''_USAGE_FLAGS'', ''_USAGE_FLAGS_COLOR'', ''_USAGE_FLAGS_DEPTH'', ''_USAGE_FLAGS_COLOR_DEPTH'',
     ''_USAGE_FLAGS_SAMPLED'', ''_USAGE_FLAGS_COLOR_SAMPLED'', ''_USAGE_FLAGS_DEPTH_SAMPLED'',
     ''_USAGE_FLAGS_COLOR_DEPTH_SAMPLED'',
     ''_USAGE_FLAGS_STORAGE'', ''_USAGE_FLAGS_COLOR_STORAGE'', ''_USAGE_FLAGS_DEPTH_STORAGE'',
     ''_USAGE_FLAGS_COLOR_DEPTH_STORAGE'',
     ''_USAGE_FLAGS_SAMPLED_STORAGE'', ''_USAGE_FLAGS_COLOR_SAMPLED_STORAGE'',
     ''_USAGE_FLAGS_DEPTH_SAMPLED_STORAGE'', ''_USAGE_FLAGS_COLOR_DEPTH_SAMPLED_STORAGE'',
     ''_ONE_SAMPLE_COUNT_PRESENT_SUBTEST'', ''_LINEAR_TILING_AND_NOT_2D_IMAGE_TYPE_SUBTEST'']"
  by (simp add: caseTags_def usageSubsets_list mnemonicsOfSubset_def)

lemma caseTags_distinct: "distinct (map fst caseTags)"
  unfolding caseTags_keys by simp

lemma caseTags_tagShape: "list_all tagShape (map fst caseTags)"
  unfolding caseTags_keys by (simp add: tagShape_def tagHeads_def)

lemma caseTags_shape:
  assumes "(tag, u, v) \<in> set caseTags"
  shows "tagShape tag"
proof -
  have "tag \<in> set (map fst caseTags)" using assms by force
  then show ?thesis using caseTags_tagShape by (simp only: list_all_iff)
qed

lemma caseTags_value:
  assumes "(tag, u, v) \<in> set caseTags" and "(tag, u', v') \<in> set caseTags"
  shows "u = u' \<and> v = v'"
  using eq_key_imp_eq_value [OF caseTags_distinct assms] by simp

lemma noHeadInside_append: "noHeadInside (us @ t) \<Longrightarrow> noHeadInside t"
  by (induction us) auto

lemma tag_overlap_empty:
  assumes t1: "tagShape t1" and t2: "tagShape (us @ t1)"
  shows "us = []"
proof (rule ccontr)
  assume "us \<noteq> []"
  then obtain a us' where us: "us = a # us'" by (cases us) auto
  have "noHeadInside (us' @ t1)" using t2 by (simp add: tagShape_def us)
  then have inside: "noHeadInside t1" by (rule noHeadInside_append)
  have head: "take 3 t1 \<in> set tagHeads" using t1 by (simp add: tagShape_def)
  then have "t1 \<noteq> []" by (auto simp add: tagHeads_def)
  then obtain c cs where "t1 = c # cs" by (cases t1) auto
  then have "take 3 t1 \<notin> set tagHeads" using inside by simp
  with head show False by simp
qed

lemma name_split_unique:
  assumes t1: "tagShape t1" and t2: "tagShape t2"
      and eq: "s1 @ t1 = s2 @ t2"
  shows "s1 = s2 \<and> t1 = t2"
proof -
  from eq obtain us where "s1 = s2 @ us \<and> us @ t1 = t2 \<or> s1 @ us = s2 \<and> t1 = us @ t2"
    by (auto simp add: append_eq_append_conv2)
  then show ?thesis
  proof
    assume h: "s1 = s2 @ us \<and> us @ t1 = t2"
    have "us = []" using t1 t2 h by (intro tag_overlap_empty [of t1 us]) auto
    with h show ?thesis by simp
  next
    assume h: "s1 @ us = s2 \<and> t1 = us @ t2"
    have "us = []" using t1 t2 h by (intro tag_overlap_empty [of t2 us]) auto
    with h show ?thesis by simp
  qed
qed

lemma caseTags_members:
  "(''_CUBE_COMPATIBLE_SUBTEST'', 0, CUBE_COMPATIBLE_SUBTEST) \<in> set caseTags"
  "(''_OPTIMAL_TILING_FEATURES_SUBTEST'', 0, OPTIMAL_TILING_FEATURES_SUBTEST) \<in> set caseTags"
  "(''_YCBCR_CONVERSION_SUBTEST'', 0, YCBCR_CONVERSION_SUBTEST) \<in> set caseTags"
  "(''_ONE_SAMPLE_COUNT_PRESENT_SUBTEST'', 0, ONE_SAMPLE_COUNT_PRESENT_SUBTEST) \<in> set caseTags"
  "(''_LINEAR_TILING_AND_NOT_2D_IMAGE_TYPE_SUBTEST'', 0, LINEAR_TILING_AND_NOT_2D_IMAGE_TYPE) \<in> set caseTags"
  "sel \<in> set usageSubsets \<Longrightarrow>
     (case sel of (color, depth, sampled, storage) \<Rightarrow>
       (''_USAGE_FLAGS'' @ mnemonicsOfSubset color depth sampled storage,
        usageOfSubset color depth sampled storage, USAGE_FLAGS_SUBTEST)) \<in> set caseTags"
  unfolding caseTags_def set_append set_map Un_iff
  by (simp_all only: list.set insert_iff simp_thms image_eqI)

lemma usageCase_taggedCase:
  "usageCase (getFormatShortString fu f)
      \<lparr> format = f, imageType = mapImageType iu imgType, imageTiling = tiling, usageFlags = 0 \<rparr> sel
    = taggedCase fu iu imgType tiling f
        (case sel of (color, depth, sampled, storage) \<Rightarrow>
           (''_USAGE_FLAGS'' @ mnemonicsOfSubset color depth sampled storage,
            usageOfSubset color depth sampled storage, USAGE_FLAGS_SUBTEST))"
  by (cases sel) (simp add: usageCase_def taggedCase_def)

lemma formatCases_tagged:
  "set (formatCases fu iu imgType tiling f) \<subseteq> taggedCase fu iu imgType tiling f ` set caseTags"
proof (cases "mapImageType iu imgType = VK_IMAGE_TYPE_2D \<and> tiling = VK_IMAGE_TILING_OPTIMAL")
  case False
  have "formatCases fu iu imgType tiling f =
      [taggedCase fu iu imgType tiling f
         (''_LINEAR_TILING_AND_NOT_2D_IMAGE_TYPE_SUBTEST'', 0, LINEAR_TILING_AND_NOT_2D_IMAGE_TYPE)]"
    by (simp only: formatCases_explicit if_not_P [OF False] taggedCase_def prod.case)
  then show ?thesis
    using caseTags_members(5) by simp
next
  case True
  let ?T = "taggedCase fu iu imgType tiling f"
  have usage: "map (usageCase (getFormatShortString fu f)
                 \<lparr> format = f, imageType = mapImageType iu imgType,
                   imageTiling = tiling, usageFlags = 0 \<rparr>) usageSubsets
      = map (\<lambda>sel. ?T (case sel of (color, depth, sampled, storage) \<Rightarrow>
           (''_USAGE_FLAGS'' @ mnemonicsOfSubset color depth sampled storage,
            usageOfSubset color depth sampled storage, USAGE_FLAGS_SUBTEST))) usageSubsets"
    by (rule map_cong [OF refl]) (rule usageCase_taggedCase)
  have "formatCases fu iu imgType tiling f =
      [?T (''_CUBE_COMPATIBLE_SUBTEST'', 0, CUBE_COMPATIBLE_SUBTEST),
       ?T (''_OPTIMAL_TILING_FEATURES_SUBTEST'', 0, OPTIMAL_TILING_FEATURES_SUBTEST)]
      @ (if isYCbCrFormat fu f
         then [?T (''_YCBCR_CONVERSION_SUBTEST'', 0, YCBCR_CONVERSION_SUBTEST)] else [])
      @ map (\<lambda>sel. ?T (case sel of (color, depth, sampled, storage) \<Rightarrow>
           (''_USAGE_FLAGS'' @ mnemonicsOfSubset color depth sampled storage,
            usageOfSubset color depth sampled storage, USAGE_FLAGS_SUBTEST))) usageSubsets
      @ [?T (''_ONE_SAMPLE_COUNT_PRESENT_SUBTEST'', 0, ONE_SAMPLE_COUNT_PRESENT_SUBTEST)]"
    by (simp only: formatCases_explicit if_P [OF True] usage)
       (simp only: taggedCase_def prod.case)
  then show ?thesis
    using caseTags_members by (auto split: if_splits)
qed

lemma enumeratedCases_member:
  assumes "enumerateAllFormatsToTest vk = Some formats"
  shows "(p, t) \<in> set (enumeratedCases fu iu vk) \<longleftrightarrow>
     (\<exists>imgType \<in> set imageTypes. \<exists>tiling \<in> set imageTilings. \<exists>f \<in> set formats.
        p = [''sample_counts'', getImageTypeName iu imgType, getImageTilingName iu tiling]
        \<and> t \<in> set (formatCases fu iu imgType tiling f))"
  unfolding enumeratedCases_grid [OF assms] by auto

lemma testName_taggedCase:
  "testName (taggedCase fu iu imgType tiling f (tag, u, v)) = getFormatShortString fu f @ tag"
  by (simp add: taggedCase_def)

text \<open>
  Two cells of the example grid and the cases of format 1 the next results name: in the
  groups of the 1D image type the case of the optimal tiling and the case of the linear
  tiling, and in the group of the 2D image type with optimal tiling the first two cases.
\<close>

lemma example_linear_cases:
  "([''sample_counts'', ''1d'', ''optimal''],
      SampleCountTest ''x_LINEAR_TILING_AND_NOT_2D_IMAGE_TYPE_SUBTEST'' []
        \<lparr> format = 1, imageType = VK_IMAGE_TYPE_1D, imageTiling = VK_IMAGE_TILING_OPTIMAL,
          usageFlags = 0 \<rparr> LINEAR_TILING_AND_NOT_2D_IMAGE_TYPE)
     \<in> set (enumeratedCases exampleFormats exampleImageUtil vulkanFormatBounds)"
  "([''sample_counts'', ''1d'', ''linear''],
      SampleCountTest ''x_LINEAR_TILING_AND_NOT_2D_IMAGE_TYPE_SUBTEST'' []
        \<lparr> format = 1, imageType = VK_IMAGE_TYPE_1D, imageTiling = VK_IMAGE_TILING_LINEAR,
          usageFlags = 0 \<rparr> LINEAR_TILING_AND_NOT_2D_IMAGE_TYPE)
     \<in> set (enumeratedCases exampleFormats exampleImageUtil vulkanFormatBounds)"
  "([''sample_counts'', ''2d'', ''optimal''],
      SampleCountTest ''x_CUBE_COMPATIBLE_SUBTEST'' []
        \<lparr> format = 1, imageType = VK_IMAGE_TYPE_2D, imageTiling = VK_IMAGE_TILING_OPTIMAL,
          usageFlags = 0 \<rparr> CUBE_COMPATIBLE_SUBTEST)
     \<in> set (enumeratedCases exampleFormats exampleImageUtil vulkanFormatBounds)"
  "([''sample_counts'', ''2d'', ''optimal''],
      SampleCountTest ''x_OPTIMAL_TILING_FEATURES_SUBTEST'' []
        \<lparr> format = 1, imageType = VK_IMAGE_TYPE_2D, imageTiling = VK_IMAGE_TILING_OPTIMAL,
          usageFlags = 0 \<rparr> OPTIMAL_TILING_FEATURES_SUBTEST)
     \<in> set (enumeratedCases exampleFormats exampleImageUtil vulkanFormatBounds)"
proof -
  have f: "(1::int) \<in> set ([1..184] @ [1000156000..1000156033] @ [1000330000..1000330003]
           @ [1000340000..1000340001] @ [1000066000..1000066013] @ [1000054000..1000054007])"
    by (simp del: upto_rec_numeral)
  have ty: "IMAGE_TYPE_1D \<in> set imageTypes" "IMAGE_TYPE_2D \<in> set imageTypes"
    by (simp_all add: imageTypes_def)
  have tils: "VK_IMAGE_TILING_OPTIMAL \<in> set imageTilings"
    "VK_IMAGE_TILING_LINEAR \<in> set imageTilings"
    by (simp_all add: imageTilings_def)
  have names: "getImageTypeName exampleImageUtil IMAGE_TYPE_1D = ''1d''"
    "getImageTypeName exampleImageUtil IMAGE_TYPE_2D = ''2d''"
    "getImageTilingName exampleImageUtil VK_IMAGE_TILING_OPTIMAL = ''optimal''"
    "getImageTilingName exampleImageUtil VK_IMAGE_TILING_LINEAR = ''linear''"
    by (simp_all add: exampleImageUtil_def)
  show "([''sample_counts'', ''1d'', ''optimal''],
      SampleCountTest ''x_LINEAR_TILING_AND_NOT_2D_IMAGE_TYPE_SUBTEST'' []
        \<lparr> format = 1, imageType = VK_IMAGE_TYPE_1D, imageTiling = VK_IMAGE_TILING_OPTIMAL,
          usageFlags = 0 \<rparr> LINEAR_TILING_AND_NOT_2D_IMAGE_TYPE)
     \<in> set (enumeratedCases exampleFormats exampleImageUtil vulkanFormatBounds)"
    unfolding enumeratedCases_member [OF vulkan_formats]
    by (intro bexI [OF _ ty(1)] bexI [OF _ tils(1)] bexI [OF _ f])
       (simp add: names formatCases_explicit exampleFormats_def exampleImageUtil_def)
  show "([''sample_counts'', ''1d'', ''linear''],
      SampleCountTest ''x_LINEAR_TILING_AND_NOT_2D_IMAGE_TYPE_SUBTEST'' []
        \<lparr> format = 1, imageType = VK_IMAGE_TYPE_1D, imageTiling = VK_IMAGE_TILING_LINEAR,
          usageFlags = 0 \<rparr> LINEAR_TILING_AND_NOT_2D_IMAGE_TYPE)
     \<in> set (enumeratedCases exampleFormats exampleImageUtil vulkanFormatBounds)"
    unfolding enumeratedCases_member [OF vulkan_formats]
    by (intro bexI [OF _ ty(1)] bexI [OF _ tils(2)] bexI [OF _ f])
       (simp add: names formatCases_explicit exampleFormats_def exampleImageUtil_def)
  show "([''sample_counts'', ''2d'', ''optimal''],
      SampleCountTest ''x_CUBE_COMPATIBLE_SUBTEST'' []
        \<lparr> format = 1, imageType = VK_IMAGE_TYPE_2D, imageTiling = VK_IMAGE_TILING_OPTIMAL,
          usageFlags = 0 \<rparr> CUBE_COMPATIBLE_SUBTEST)
     \<in> set (enumeratedCases exampleFormats exampleImageUtil vulkanFormatBounds)"
    unfolding enumeratedCases_member [OF vulkan_formats]
    by (intro bexI [OF _ ty(2)] bexI [OF _ tils(1)] bexI [OF _ f])
       (simp add: names formatCases_explicit exampleFormats_def exampleImageUtil_def)
  show "([''sample_counts'', ''2d'', ''optimal''],
      SampleCountTest ''x_OPTIMAL_TILING_FEATURES_SUBTEST'' []
        \<lparr> format = 1, imageType = VK_IMAGE_TYPE_2D, imageTiling = VK_IMAGE_TILING_OPTIMAL,
          usageFlags = 0 \<rparr> OPTIMAL_TILING_FEATURES_SUBTEST)
     \<in> set (enumeratedCases exampleFormats exampleImageUtil vulkanFormatBounds)"
    unfolding enumeratedCases_member [OF vulkan_formats]
    by (intro bexI [OF _ ty(2)] bexI [OF _ tils(1)] bexI [OF _ f])
       (simp add: names formatCases_explicit exampleFormats_def exampleImageUtil_def)
qed

lemma example_names:
  "inj_on (getFormatShortString exampleFormats)
     (set ([1..184] @ [1000156000..1000156033] @ [1000330000..1000330003]
           @ [1000340000..1000340001] @ [1000066000..1000066013] @ [1000054000..1000054007]))"
  "inj (getImageTypeName exampleImageUtil)"
  "inj (getImageTilingName exampleImageUtil)"
proof -
  have name: "getFormatShortString exampleFormats f = replicate (nat f) CHR ''x''" for f
    by (simp add: exampleFormats_def)
  have pos: "0 \<le> f"
    if "f \<in> set ([1..184] @ [1000156000..1000156033] @ [1000330000..1000330003]
           @ [1000340000..1000340001] @ [1000066000..1000066013] @ [1000054000..1000054007])"
    for f :: int
    using that by (auto simp del: upto_rec_numeral)
  show "inj_on (getFormatShortString exampleFormats)
     (set ([1..184] @ [1000156000..1000156033] @ [1000330000..1000330003]
           @ [1000340000..1000340001] @ [1000066000..1000066013] @ [1000054000..1000054007]))"
  proof (rule inj_onI)
    fix a b :: int
    assume a: "a \<in> set ([1..184] @ [1000156000..1000156033] @ [1000330000..1000330003]
           @ [1000340000..1000340001] @ [1000066000..1000066013] @ [1000054000..1000054007])"
      and b: "b \<in> set ([1..184] @ [1000156000..1000156033] @ [1000330000..1000330003]
           @ [1000340000..1000340001] @ [1000066000..1000066013] @ [1000054000..1000054007])"
      and eq: "getFormatShortString exampleFormats a = getFormatShortString exampleFormats b"
    have "length (replicate (nat a) CHR ''x'') = length (replicate (nat b) CHR ''x'')"
      using eq by (simp only: name)
    then have "nat a = nat b" by (simp only: length_replicate)
    then show "a = b" using pos [OF a] pos [OF b] by simp
  qed
  show "inj (getImageTypeName exampleImageUtil)"
  proof (rule injI)
    fix a b :: ImageType
    assume "getImageTypeName exampleImageUtil a = getImageTypeName exampleImageUtil b"
    then show "a = b" by (cases a; cases b; simp add: exampleImageUtil_def)
  qed
  show "inj (getImageTilingName exampleImageUtil)"
  proof (rule injI)
    fix a b :: VkImageTiling
    assume "getImageTilingName exampleImageUtil a = getImageTilingName exampleImageUtil b"
    then show "a = b" by (cases a; cases b; simp add: exampleImageUtil_def)
  qed
qed

text \<open>
  Claim C8 as stated fails on the case name, the string built from the format short name,
  the variant tag and the flag mnemonics. In the example grid the case of format 1 under
  the 1D image type has the same name with optimal tiling and with linear tiling, and the
  two case definitions differ in their tiling.
\<close>

theorem case_name_not_injective:
  "([''sample_counts'', ''1d'', ''optimal''],
      SampleCountTest ''x_LINEAR_TILING_AND_NOT_2D_IMAGE_TYPE_SUBTEST'' []
        \<lparr> format = 1, imageType = VK_IMAGE_TYPE_1D, imageTiling = VK_IMAGE_TILING_OPTIMAL,
          usageFlags = 0 \<rparr> LINEAR_TILING_AND_NOT_2D_IMAGE_TYPE)
     \<in> set (enumeratedCases exampleFormats exampleImageUtil vulkanFormatBounds)
   \<and> ([''sample_counts'', ''1d'', ''linear''],
      SampleCountTest ''x_LINEAR_TILING_AND_NOT_2D_IMAGE_TYPE_SUBTEST'' []
        \<lparr> format = 1, imageType = VK_IMAGE_TYPE_1D, imageTiling = VK_IMAGE_TILING_LINEAR,
          usageFlags = 0 \<rparr> LINEAR_TILING_AND_NOT_2D_IMAGE_TYPE)
     \<in> set (enumeratedCases exampleFormats exampleImageUtil vulkanFormatBounds)
   \<and> testName (SampleCountTest ''x_LINEAR_TILING_AND_NOT_2D_IMAGE_TYPE_SUBTEST'' []
        \<lparr> format = 1, imageType = VK_IMAGE_TYPE_1D, imageTiling = VK_IMAGE_TILING_OPTIMAL,
          usageFlags = 0 \<rparr> LINEAR_TILING_AND_NOT_2D_IMAGE_TYPE)
     = testName (SampleCountTest ''x_LINEAR_TILING_AND_NOT_2D_IMAGE_TYPE_SUBTEST'' []
        \<lparr> format = 1, imageType = VK_IMAGE_TYPE_1D, imageTiling = VK_IMAGE_TILING_LINEAR,
          usageFlags = 0 \<rparr> LINEAR_TILING_AND_NOT_2D_IMAGE_TYPE)
   \<and> testCaseDef (SampleCountTest ''x_LINEAR_TILING_AND_NOT_2D_IMAGE_TYPE_SUBTEST'' []
        \<lparr> format = 1, imageType = VK_IMAGE_TYPE_1D, imageTiling = VK_IMAGE_TILING_OPTIMAL,
          usageFlags = 0 \<rparr> LINEAR_TILING_AND_NOT_2D_IMAGE_TYPE)
     \<noteq> testCaseDef (SampleCountTest ''x_LINEAR_TILING_AND_NOT_2D_IMAGE_TYPE_SUBTEST'' []
        \<lparr> format = 1, imageType = VK_IMAGE_TYPE_1D, imageTiling = VK_IMAGE_TILING_LINEAR,
          usageFlags = 0 \<rparr> LINEAR_TILING_AND_NOT_2D_IMAGE_TYPE)"
  using example_linear_cases(1,2) by simp

text \<open>
  Claim C8, amended. When the format short names are injective on the enumerated formats
  and the image-type names and the tiling names are injective, the names of the groups
  above a case together with the case name determine
  the case definition (format, image type, tiling and usage flags) and the subtest: two
  enumerated cases with the same group path and the same name have the same case
  definition and the same subtest.
\<close>

theorem case_path_and_name_injective:
  assumes fm: "enumerateAllFormatsToTest vk = Some formats"
      and inj: "inj_on (getFormatShortString fu) (set formats)"
      and injTy: "inj (getImageTypeName iu)"
      and injTil: "inj (getImageTilingName iu)"
      and m1: "(p1, t1) \<in> set (enumeratedCases fu iu vk)"
      and m2: "(p2, t2) \<in> set (enumeratedCases fu iu vk)"
      and path: "p1 = p2"
      and name: "testName t1 = testName t2"
  shows "testCaseDef t1 = testCaseDef t2 \<and> testSubtest t1 = testSubtest t2"
proof -
  from m1 obtain ty1 til1 f1 where
    ty1: "ty1 \<in> set imageTypes" and til1: "til1 \<in> set imageTilings" and f1: "f1 \<in> set formats"
    and p1: "p1 = [''sample_counts'', getImageTypeName iu ty1, getImageTilingName iu til1]"
    and c1: "t1 \<in> set (formatCases fu iu ty1 til1 f1)"
    unfolding enumeratedCases_member [OF fm] by blast
  from m2 obtain ty2 til2 f2 where
    ty2: "ty2 \<in> set imageTypes" and til2: "til2 \<in> set imageTilings" and f2: "f2 \<in> set formats"
    and p2: "p2 = [''sample_counts'', getImageTypeName iu ty2, getImageTilingName iu til2]"
    and c2: "t2 \<in> set (formatCases fu iu ty2 til2 f2)"
    unfolding enumeratedCases_member [OF fm] by blast
  from c1 obtain tag1 u1 v1 where e1: "(tag1, u1, v1) \<in> set caseTags"
    and t1: "t1 = taggedCase fu iu ty1 til1 f1 (tag1, u1, v1)"
    using formatCases_tagged [of fu iu ty1 til1 f1] by auto
  from c2 obtain tag2 u2 v2 where e2: "(tag2, u2, v2) \<in> set caseTags"
    and t2: "t2 = taggedCase fu iu ty2 til2 f2 (tag2, u2, v2)"
    using formatCases_tagged [of fu iu ty2 til2 f2] by auto
  have "getImageTypeName iu ty1 = getImageTypeName iu ty2"
    and "getImageTilingName iu til1 = getImageTilingName iu til2"
    using path p1 p2 by simp_all
  then have ty: "ty1 = ty2" and til: "til1 = til2"
    using injTy injTil by (auto dest: injD)
  have "getFormatShortString fu f1 @ tag1 = getFormatShortString fu f2 @ tag2"
    using name by (simp only: t1 t2 testName_taggedCase)
  moreover have "tagShape tag1" and "tagShape tag2"
    using e1 e2 by (blast intro: caseTags_shape)+
  ultimately have s: "getFormatShortString fu f1 = getFormatShortString fu f2"
    and tag: "tag1 = tag2"
    using name_split_unique [of tag1 tag2 "getFormatShortString fu f1"
        "getFormatShortString fu f2"]
    by blast+
  have f: "f1 = f2" using s inj f1 f2 by (auto dest: inj_onD)
  have uv: "u1 = u2 \<and> v1 = v2"
    using caseTags_value [of tag1 u1 v1 u2 v2] e1 e2 tag by simp
  have "t1 = t2" by (simp only: t1 t2 ty til f tag uv)
  then show ?thesis by simp
qed

theorem case_path_and_name_injective_witness:
  "testName (SampleCountTest ''x_CUBE_COMPATIBLE_SUBTEST'' []
        \<lparr> format = 1, imageType = VK_IMAGE_TYPE_2D, imageTiling = VK_IMAGE_TILING_OPTIMAL,
          usageFlags = 0 \<rparr> CUBE_COMPATIBLE_SUBTEST)
   \<noteq> testName (SampleCountTest ''x_OPTIMAL_TILING_FEATURES_SUBTEST'' []
        \<lparr> format = 1, imageType = VK_IMAGE_TYPE_2D, imageTiling = VK_IMAGE_TILING_OPTIMAL,
          usageFlags = 0 \<rparr> OPTIMAL_TILING_FEATURES_SUBTEST)"
  using case_path_and_name_injective [OF vulkan_formats example_names
      example_linear_cases(3) example_linear_cases(4) refl]
  by auto

end
